theory Spec2Isabelle
  imports Complex_Main "HOL-Library.Sublist" "HOL-Library.Log_Nat"
begin

section \<open>Data model (models.js)\<close>

text \<open>
  A JavaScript number is an IEEE double; the finite ones are embedded as the rationals they
  denote (\<open>rat\<close>). Set and repetition counts are integers. A property that an object may
  lack (it then reads as \<open>undefined\<close>) is an \<open>option\<close>, \<open>None\<close> being the missing
  property. Identifiers and names are strings.
\<close>

record user =
  uid :: string
  uname :: string
  trainingMaxes :: "(string \<times> rat) list"
  injuryHistory :: "string list"

text \<open>
  An \<open>Exercise\<close>. The object literals built by \<open>getSafeSubstitution\<close> carry only
  \<open>name\<close>, \<open>weight\<close>, \<open>sets\<close>, \<open>reps\<close> and \<open>id\<close>, so \<open>type\<close>,
  \<open>muscleGroups\<close> and \<open>rpeTarget\<close> are optional.
\<close>

record exercise =
  eid :: string
  name :: string
  etype :: "string option"
  muscleGroups :: "string list option"
  weight :: rat
  sets :: int
  reps :: int
  rpeTarget :: "rat option"

record workout =
  wid :: string
  userId :: string
  wname :: string
  exercises :: "exercise list"
  date :: string

text \<open>
  \<open>Feedback\<close>. The engine reads the four properties of whatever object it is handed, so
  each of them may be missing.
\<close>

record feedback =
  sleepQuality :: "rat option"
  soreness :: "rat option"
  stressLevel :: "string option"
  painFlags :: "string list option"

record exercisePerformance =
  exerciseId :: string
  pweight :: rat
  completedReps :: rat
  completedSets :: rat
  rpe :: rat

section \<open>Numbers\<close>

text \<open>
  Arithmetic on doubles returns the exact result rounded to the nearest double, a tie going
  to the even significand. \<open>expo x\<close> is the binary exponent of \<open>x\<close>: the power of two
  with that exponent is at most \<open>|x|\<close>, the next one is above it (\<open>expo_bounds\<close> below).
  \<open>ulp x\<close> is the gap between the doubles around \<open>x\<close>: 52 binary places below the
  exponent, and 1074 binary places below one in the subnormal range. What lies beyond the
  finite doubles is not modelled: a result too large for a double (the code has
  \<open>Infinity\<close> there), \<open>NaN\<close>, and the sign of zero.
\<close>

definition expo :: "rat \<Rightarrow> int" where
  "expo x =
     (let a = \<bar>x\<bar> in
      if 1 \<le> a then bitlen \<lfloor>a\<rfloor> - 1
      else (let b = bitlen \<lfloor>1 / a\<rfloor> in if a = 2 powi (1 - b) then 1 - b else - b))"

definition roundEven :: "rat \<Rightarrow> int" where
  "roundEven y =
     (let n = \<lfloor>y\<rfloor>; f = y - rat_of_int n in
      if f < 1 / 2 then n else if 1 / 2 < f then n + 1 else if even n then n else n + 1)"

definition ulp :: "rat \<Rightarrow> rat" where
  "ulp x = 2 powi (max (expo x) (- 1022) - 52)"

definition roundDouble :: "rat \<Rightarrow> rat" where
  "roundDouble x = (if x = 0 then 0 else rat_of_int (roundEven (x / ulp x)) * ulp x)"

text \<open>
  The operators \<open>*\<close>, \<open>/\<close> and \<open>-\<close> of the code. A decimal literal of the code denotes
  the double nearest to it: \<open>0.95\<close> is \<open>roundDouble 0.95\<close>; the literals 0.5, 2.5, 9.5 and
  the integers are doubles themselves. Sums and differences of the small integers of the
  readiness score and of the set counts are exact in doubles and are written with the
  exact operators.
\<close>

definition times_d :: "rat \<Rightarrow> rat \<Rightarrow> rat" where
  "times_d x y = roundDouble (x * y)"

definition divide_d :: "rat \<Rightarrow> rat \<Rightarrow> rat" where
  "divide_d x y = roundDouble (x / y)"

definition minus_d :: "rat \<Rightarrow> rat \<Rightarrow> rat" where
  "minus_d x y = roundDouble (x - y)"

text \<open>\<open>Math.round\<close> rounds to the nearest integer, a half upwards: \<open>\<lfloor>x + 1/2\<rfloor>\<close>.\<close>

definition mathRound :: "rat \<Rightarrow> int" where
  "mathRound x = \<lfloor>x + 1 / 2\<rfloor>"

section \<open>Strings\<close>

text \<open>\<open>String.prototype.includes\<close>: the second string occurs in the first as a substring.\<close>

fun includes_str :: "string \<Rightarrow> string \<Rightarrow> bool" where
  "includes_str [] t = (t = [])"
| "includes_str (c # s) t = (prefix t (c # s) \<or> includes_str s t)"

text \<open>\<open>String.prototype.toLowerCase\<close> on ASCII text: the letters A to Z are lowered.\<close>

definition toLowerChar :: "char \<Rightarrow> char" where
  "toLowerChar c =
     (case map_of (zip ''ABCDEFGHIJKLMNOPQRSTUVWXYZ'' ''abcdefghijklmnopqrstuvwxyz'') c of
        None \<Rightarrow> c
      | Some l \<Rightarrow> l)"

definition toLowerCase :: "string \<Rightarrow> string" where
  "toLowerCase s = map toLowerChar s"

section \<open>Explanations (transparency.js)\<close>

datatype adjustmentType =
  LOAD_INCREASE | LOAD_DECREASE | VOLUME_REDUCTION | DELOAD | INJURY_SUBSTITUTION | MAINTENANCE

text \<open>
  The context object handed to \<open>TransparencyService.explainAdjustment\<close>, one constructor
  per call site of the engine.
\<close>

datatype explainContext =
  InjuryContext string string string
| VolumeContext "rat option" string
| LoadContext rat rat

text \<open>
  \<open>explainAdjustment\<close> selects one fixed template by the adjustment type and fills it from
  the context. The embedding keeps the pair the text is rendered from; the rendering of
  numbers into text is not modelled.
\<close>

datatype explanation = Explanation adjustmentType explainContext

definition explainAdjustment :: "adjustmentType \<Rightarrow> explainContext \<Rightarrow> explanation" where
  "explainAdjustment ty ctx = Explanation ty ctx"

section \<open>Autoregulator (autoregulator.js)\<close>

record loadAdjustment =
  newWeight :: rat
  adjustmentType :: adjustmentType

text \<open>\<open>adjustLoad\<close>; a target RPE that is \<open>undefined\<close> takes the default 8.\<close>

definition adjustLoad :: "rat \<Rightarrow> rat \<Rightarrow> rat option \<Rightarrow> bool \<Rightarrow> loadAdjustment" where
  "adjustLoad currentWeight rpeVal targetRpeArg missedReps =
     (let targetRpe = (case targetRpeArg of None \<Rightarrow> 8 | Some t \<Rightarrow> t) in
      if missedReps then
        \<lparr>newWeight = times_d currentWeight (roundDouble 0.95), adjustmentType = LOAD_DECREASE\<rparr>
      else if rpeVal \<le> minus_d targetRpe 1 then
        \<lparr>newWeight = times_d currentWeight (roundDouble 1.025), adjustmentType = LOAD_INCREASE\<rparr>
      else if rpeVal \<ge> 9.5 then
        \<lparr>newWeight = times_d currentWeight (roundDouble 0.95), adjustmentType = LOAD_DECREASE\<rparr>
      else
        \<lparr>newWeight = currentWeight, adjustmentType = MAINTENANCE\<rparr>)"

record volumeResult =
  vworkout :: workout
  vtype :: adjustmentType

definition deloadSets :: "exercise \<Rightarrow> exercise" where
  "deloadSets ex = ex\<lparr>sets := max 1 \<lfloor>rat_of_int (sets ex) * 0.5\<rfloor>\<rparr>"

definition reduceSets :: "exercise \<Rightarrow> exercise" where
  "reduceSets ex = (if sets ex > 1 then ex\<lparr>sets := sets ex - 1\<rparr> else ex)"

text \<open>
  \<open>adjustVolume\<close> works on a deep clone of its argument; on values the clone is the
  argument itself.
\<close>

definition adjustVolume :: "workout \<Rightarrow> rat \<Rightarrow> volumeResult" where
  "adjustVolume plannedWorkout readinessScore =
     (if readinessScore < 40 then
        \<lparr>vworkout = plannedWorkout\<lparr>exercises := map deloadSets (exercises plannedWorkout)\<rparr>,
         vtype = DELOAD\<rparr>
      else if readinessScore < 60 then
        \<lparr>vworkout = plannedWorkout\<lparr>exercises := map reduceSets (exercises plannedWorkout)\<rparr>,
         vtype = VOLUME_REDUCTION\<rparr>
      else
        \<lparr>vworkout = plannedWorkout, vtype = MAINTENANCE\<rparr>)"

section \<open>Training engine (training\_engine.js)\<close>

definition baselineReadiness :: rat where
  "baselineReadiness = 80"

text \<open>A comparison with \<open>undefined\<close> is false, so a missing value selects no bucket.\<close>

definition sleepImpact :: "rat option \<Rightarrow> rat" where
  "sleepImpact sq =
     (case sq of None \<Rightarrow> 0
      | Some s \<Rightarrow> if s \<le> 4 then - 20 else if s \<le> 6 then - 10 else if s \<ge> 8 then 5 else 0)"

definition sorenessImpact :: "rat option \<Rightarrow> rat" where
  "sorenessImpact so =
     (case so of None \<Rightarrow> 0
      | Some s \<Rightarrow> (if s \<ge> 4 then - 10 else 0) + (if s = 5 then - 20 else 0))"

definition stressImpact :: "string option \<Rightarrow> rat" where
  "stressImpact st = (if st = Some ''High'' then - 15 else 0)"

definition calculateReadiness :: "feedback \<Rightarrow> rat" where
  "calculateReadiness fb =
     (let score = baselineReadiness + sleepImpact (sleepQuality fb)
                  + sorenessImpact (soreness fb) + stressImpact (stressLevel fb)
      in max 0 (min 100 score))"

text \<open>
  \<open>isExerciseRisky\<close>: the entries of the risk map are visited in order; an entry whose key
  occurs in the lower-cased pain area and one of whose names occurs in the exercise name
  sets the flag.
\<close>

definition riskMap :: "(string \<times> string list) list" where
  "riskMap =
     [(''knee'', [''Squat'', ''Lunge'', ''Leg Press'']),
      (''shoulder'', [''Bench Press'', ''Overhead Press'', ''Dip'']),
      (''back'', [''Deadlift'', ''Row'', ''Good Morning''])]"

definition isExerciseRisky :: "exercise \<Rightarrow> string \<Rightarrow> bool" where
  "isExerciseRisky ex painArea =
     foldl (\<lambda>foundRisk (key, riskyList).
              if includes_str (toLowerCase painArea) key
              then (if list_ex (\<lambda>riskyName. includes_str (name ex) riskyName) riskyList
                    then True else foundRisk)
              else foundRisk)
       False riskMap"

definition getSafeSubstitution :: "exercise \<Rightarrow> string \<Rightarrow> exercise" where
  "getSafeSubstitution ex painArea =
     (if includes_str painArea ''knee'' then
        \<lparr>eid = eid ex @ ''_sub'', name = ''Glute Bridge'', etype = None, muscleGroups = None,
         weight = 0, sets = 3, reps = 15, rpeTarget = None\<rparr>
      else if includes_str painArea ''shoulder'' then
        \<lparr>eid = eid ex @ ''_sub'', name = ''Push-up (Neutral Grip)'', etype = None,
         muscleGroups = None, weight = 0, sets = 3, reps = 12, rpeTarget = None\<rparr>
      else if includes_str painArea ''back'' then
        \<lparr>eid = eid ex @ ''_sub'', name = ''Chest Supported Row'', etype = None,
         muscleGroups = None, weight = times_d (weight ex) (roundDouble 0.7), sets = 3, reps = 10,
         rpeTarget = None\<rparr>
      else
        \<lparr>eid = ''rest'', name = ''Rest ('' @ painArea @ '' pain)'', etype = None,
         muscleGroups = None, weight = 0, sets = 0, reps = 0, rpeTarget = None\<rparr>)"

text \<open>
  Step 1 of \<open>generateDailyWorkout\<close>. The body of the inner \<open>forEach\<close> for one slot: the
  exercise that stands in the slot afterwards and the explanations pushed.
\<close>

definition substituteSlot :: "string \<Rightarrow> exercise \<Rightarrow> exercise \<times> explanation list" where
  "substituteSlot painArea ex =
     (if isExerciseRisky ex painArea then
        (let sub = getSafeSubstitution ex painArea in
         (sub, [explainAdjustment INJURY_SUBSTITUTION (InjuryContext painArea (name ex) (name sub))]))
      else (ex, []))"

text \<open>
  The inner \<open>forEach\<close> walks the slots in order; slot \<open>index\<close> is read when it is reached
  and only slot \<open>index\<close> is written, so each slot is handled on its own.
\<close>

fun substitutePass :: "string \<Rightarrow> exercise list \<Rightarrow> exercise list \<times> explanation list" where
  "substitutePass painArea [] = ([], [])"
| "substitutePass painArea (ex # rest) =
     (let (ex', expl) = substituteSlot painArea ex;
          (rest', expls) = substitutePass painArea rest
      in (ex' # rest', expl @ expls))"

text \<open>The outer \<open>forEach\<close> over the pain flags, threading the working copy and the explanations.\<close>

fun injuryStage ::
  "string list \<Rightarrow> exercise list \<times> explanation list \<Rightarrow> exercise list \<times> explanation list" where
  "injuryStage [] st = st"
| "injuryStage (painArea # flags) (exs, explanations) =
     (let (exs', expls) = substitutePass painArea exs
      in injuryStage flags (exs', explanations @ expls))"

text \<open>\<open>Math.round(newWeight / 2.5) * 2.5\<close>, each operation on doubles.\<close>

definition roundToPlate :: "rat \<Rightarrow> rat" where
  "roundToPlate w = times_d (rat_of_int (mathRound (divide_d w 2.5))) 2.5"

text \<open>
  Step 3 for one exercise: the first performance record with the exercise's id, if there
  is one, decides the weight.
\<close>

definition progressSlot ::
  "exercisePerformance list \<Rightarrow> exercise \<Rightarrow> exercise \<times> explanation list" where
  "progressSlot lastPerformances currentEx =
     (case find (\<lambda>p. exerciseId p = eid currentEx) lastPerformances of
        None \<Rightarrow> (currentEx, [])
      | Some lastPerf \<Rightarrow>
          (let adjustment = adjustLoad (pweight lastPerf) (rpe lastPerf) (rpeTarget currentEx)
                              (completedReps lastPerf < rat_of_int (reps currentEx))
           in if adjustmentType adjustment \<noteq> MAINTENANCE then
                (let ex' = currentEx\<lparr>weight := roundToPlate (newWeight adjustment)\<rparr> in
                 (ex', [explainAdjustment (adjustmentType adjustment)
                          (LoadContext (rpe lastPerf) (minus_d (weight ex') (pweight lastPerf)))]))
              else (currentEx\<lparr>weight := pweight lastPerf\<rparr>, [])))"

fun loadStage ::
  "exercisePerformance list \<Rightarrow> exercise list \<Rightarrow> exercise list \<times> explanation list" where
  "loadStage lastPerformances [] = ([], [])"
| "loadStage lastPerformances (ex # rest) =
     (let (ex', expl) = progressSlot lastPerformances ex;
          (rest', expls) = loadStage lastPerformances rest
      in (ex' # rest', expl @ expls))"

text \<open>
  The only failure of the engine on these records: \<open>dailyFeedback.painFlags.length\<close> with
  \<open>painFlags\<close> missing is a \<open>TypeError\<close>.
\<close>

datatype error = TypeError

record dailyResult =
  readinessScore :: rat
  workout :: workout
  explanations :: "explanation list"

definition generateDailyWorkout ::
  "user \<Rightarrow> workout \<Rightarrow> feedback \<Rightarrow> exercisePerformance list \<Rightarrow> error + dailyResult" where
  "generateDailyWorkout userProfile plannedWorkout dailyFeedback lastPerformances =
     (case painFlags dailyFeedback of
        None \<Rightarrow> Inl TypeError
      | Some flags \<Rightarrow>
          (let (exs1, expl1) =
                 (if length flags > 0 then injuryStage flags (exercises plannedWorkout, [])
                  else (exercises plannedWorkout, []));
               adjusted1 = plannedWorkout\<lparr>exercises := exs1\<rparr>;
               readiness = calculateReadiness dailyFeedback;
               volumeAdjustmentResult = adjustVolume adjusted1 readiness;
               (adjusted2, expl2) =
                 (if vtype volumeAdjustmentResult \<noteq> MAINTENANCE then
                    (vworkout volumeAdjustmentResult,
                     expl1 @ [explainAdjustment (vtype volumeAdjustmentResult)
                                (VolumeContext (sleepQuality dailyFeedback)
                                   (if vtype volumeAdjustmentResult = DELOAD then ''50%'' else ''20%''))])
                  else (adjusted1, expl1));
               (exs3, expl3) =
                 (if readiness \<ge> 40 then loadStage lastPerformances (exercises adjusted2)
                  else (exercises adjusted2, []))
           in Inr \<lparr>readinessScore = readiness,
                   workout = adjusted2\<lparr>exercises := exs3\<rparr>,
                   explanations = expl2 @ expl3\<rparr>))"

text \<open>A load that is an integer multiple of 2.5.\<close>

definition isPlateMultiple :: "rat \<Rightarrow> bool" where
  "isPlateMultiple w = (rat_of_int \<lfloor>w / 2.5\<rfloor> * 2.5 = w)"

section \<open>The pipeline at one slot\<close>

text \<open>
  No step of \<open>generateDailyWorkout\<close> adds, removes or reorders slots, and each step
  handles a slot from what stands in that slot alone. These three functions are the steps
  seen from a single slot; \<open>generateDailyWorkout_slots\<close> below proves that the engine's
  result is their composition in every slot.
\<close>

definition substituteAll :: "string list \<Rightarrow> exercise \<Rightarrow> exercise" where
  "substituteAll flags ex = foldl (\<lambda>x painArea. fst (substituteSlot painArea x)) ex flags"

definition volumeSlot :: "rat \<Rightarrow> exercise \<Rightarrow> exercise" where
  "volumeSlot readiness ex =
     (if readiness < 40 then deloadSets ex else if readiness < 60 then reduceSets ex else ex)"

definition loadSlot :: "rat \<Rightarrow> exercisePerformance list \<Rightarrow> exercise \<Rightarrow> exercise" where
  "loadSlot readiness h ex = (if readiness \<ge> 40 then fst (progressSlot h ex) else ex)"

section \<open>The scenarios of test\_scenarios.js\<close>

definition Exercise ::
  "string \<Rightarrow> string \<Rightarrow> string \<Rightarrow> string list \<Rightarrow> rat \<Rightarrow> int \<Rightarrow> int \<Rightarrow> exercise" where
  "Exercise i n t mg w s r =
     \<lparr>eid = i, name = n, etype = Some t, muscleGroups = Some mg, weight = w, sets = s, reps = r,
      rpeTarget = Some 8\<rparr>"

definition testUser :: user where
  "testUser = \<lparr>uid = ''u1'', uname = ''Test User'', trainingMaxes = [], injuryHistory = []\<rparr>"

definition testPlan :: workout where
  "testPlan =
     \<lparr>wid = ''w1'', userId = ''u1'', wname = ''Full Body A'',
      exercises =
        [Exercise ''sq'' ''Barbell Squat'' ''compound'' [''quads''] 100 3 5,
         Exercise ''bp'' ''Bench Press'' ''compound'' [''chest''] 80 3 5,
         Exercise ''row'' ''Barbell Row'' ''compound'' [''back''] 60 3 10],
      date = ''today''\<rparr>"

definition Feedback :: "rat \<Rightarrow> rat \<Rightarrow> string \<Rightarrow> string list \<Rightarrow> feedback" where
  "Feedback sq so st pf =
     \<lparr>sleepQuality = Some sq, soreness = Some so, stressLevel = Some st, painFlags = Some pf\<rparr>"

definition ExercisePerformance :: "string \<Rightarrow> rat \<Rightarrow> rat \<Rightarrow> rat \<Rightarrow> rat \<Rightarrow> exercisePerformance" where
  "ExercisePerformance i w cr cs r =
     \<lparr>exerciseId = i, pweight = w, completedReps = cr, completedSets = cs, rpe = r\<rparr>"

definition historyA :: "exercisePerformance list" where
  "historyA =
     [ExercisePerformance ''sq'' 100 5 3 7,
      ExercisePerformance ''bp'' 80 5 3 8,
      ExercisePerformance ''row'' 60 10 3 9]"

definition feedbackA :: feedback where
  "feedbackA = Feedback 8 2 ''Low'' []"

definition feedbackB :: feedback where
  "feedbackB = Feedback 5 3 ''High'' []"

definition feedbackC :: feedback where
  "feedbackC = Feedback 7 2 ''Low'' [''left_knee'']"

section \<open>The engine on a store of objects\<close>

text \<open>
  The working copy is a JavaScript object that the engine writes to in place: slots of the
  \<open>exercises\<close> array, and the \<open>sets\<close> and \<open>weight\<close> properties of exercise objects.
  To speak about what the caller's objects look like after a call, the objects live in a
  store: a workout object holds a reference to its \<open>exercises\<close> array, the array holds
  references to exercise objects. A reference always denotes an object, so the store is
  total in each kind of object; \<open>nxt\<close> is the first reference not yet handed out.
\<close>

type_synonym addr = nat

record workoutObj =
  wo_id :: string
  wo_userId :: string
  wo_name :: string
  wo_exercises :: addr
  wo_date :: string

record store =
  exObj :: "addr \<Rightarrow> exercise"
  arrObj :: "addr \<Rightarrow> addr list"
  wkObj :: "addr \<Rightarrow> workoutObj"
  nxt :: addr

text \<open>The value of a workout object, as \<open>JSON.stringify\<close> walks it.\<close>

definition readWorkout :: "store \<Rightarrow> addr \<Rightarrow> workout" where
  "readWorkout H p =
     (let wo = wkObj H p in
      \<lparr>wid = wo_id wo, userId = wo_userId wo, wname = wo_name wo,
       exercises = map (exObj H) (arrObj H (wo_exercises wo)), date = wo_date wo\<rparr>)"

text \<open>Fresh objects for a value, as \<open>JSON.parse\<close> builds them.\<close>

definition allocExercise :: "exercise \<Rightarrow> store \<Rightarrow> addr \<times> store" where
  "allocExercise ex H = (nxt H, H\<lparr>exObj := (exObj H)(nxt H := ex), nxt := Suc (nxt H)\<rparr>)"

fun allocExercises :: "exercise list \<Rightarrow> store \<Rightarrow> addr list \<times> store" where
  "allocExercises [] H = ([], H)"
| "allocExercises (ex # rest) H =
     (let (a, H1) = allocExercise ex H;
          (as, H2) = allocExercises rest H1
      in (a # as, H2))"

definition allocArray :: "addr list \<Rightarrow> store \<Rightarrow> addr \<times> store" where
  "allocArray as H = (nxt H, H\<lparr>arrObj := (arrObj H)(nxt H := as), nxt := Suc (nxt H)\<rparr>)"

definition allocWorkout :: "workout \<Rightarrow> store \<Rightarrow> addr \<times> store" where
  "allocWorkout w H =
     (let (as, H1) = allocExercises (exercises w) H;
          (arr, H2) = allocArray as H1
      in (nxt H2,
          H2\<lparr>wkObj := (wkObj H2)(nxt H2 :=
                \<lparr>wo_id = wid w, wo_userId = userId w, wo_name = wname w, wo_exercises = arr,
                 wo_date = date w\<rparr>),
             nxt := Suc (nxt H2)\<rparr>))"

text \<open>\<open>JSON.parse(JSON.stringify(w))\<close>.\<close>

definition jsonClone :: "addr \<Rightarrow> store \<Rightarrow> addr \<times> store" where
  "jsonClone p H = allocWorkout (readWorkout H p) H"

text \<open>
  Step 1 at one slot: \<open>ex\<close> is the object in the slot when \<open>forEach\<close> reaches it; a
  substitute is a new object, stored into the slot of the array.
\<close>

definition substituteAtH ::
  "string \<Rightarrow> addr \<Rightarrow> store \<times> explanation list \<Rightarrow> nat \<Rightarrow> store \<times> explanation list" where
  "substituteAtH painArea adjusted st index =
     (let H = fst st;
          arr = wo_exercises (wkObj H adjusted);
          ex = exObj H (arrObj H arr ! index)
      in if isExerciseRisky ex painArea then
           (let sub = getSafeSubstitution ex painArea;
                (a, H1) = allocExercise sub H;
                H2 = H1\<lparr>arrObj := (arrObj H1)(arr := (arrObj H1 arr)[index := a])\<rparr>
            in (H2, snd st @ [explainAdjustment INJURY_SUBSTITUTION
                               (InjuryContext painArea (name ex) (name sub))]))
         else st)"

definition substitutePassH ::
  "addr \<Rightarrow> store \<times> explanation list \<Rightarrow> string \<Rightarrow> store \<times> explanation list" where
  "substitutePassH adjusted st painArea =
     foldl (substituteAtH painArea adjusted) st
       [0..<length (arrObj (fst st) (wo_exercises (wkObj (fst st) adjusted)))]"

definition injuryStageH ::
  "string list \<Rightarrow> addr \<Rightarrow> store \<times> explanation list \<Rightarrow> store \<times> explanation list" where
  "injuryStageH flags adjusted st = foldl (substitutePassH adjusted) st flags"

text \<open>\<open>Autoregulator.adjustVolume\<close>: a clone of the workout, then \<open>sets\<close> written in the clone.\<close>

definition writeExercise :: "(exercise \<Rightarrow> exercise) \<Rightarrow> store \<Rightarrow> addr \<Rightarrow> store" where
  "writeExercise f H a = H\<lparr>exObj := (exObj H)(a := f (exObj H a))\<rparr>"

definition adjustVolumeH :: "addr \<Rightarrow> rat \<Rightarrow> store \<Rightarrow> (addr \<times> adjustmentType) \<times> store" where
  "adjustVolumeH plannedWorkout readiness H =
     (let (adjustedWorkout, H1) = jsonClone plannedWorkout H;
          slots = arrObj H1 (wo_exercises (wkObj H1 adjustedWorkout))
      in if readiness < 40 then
           ((adjustedWorkout, DELOAD), foldl (writeExercise deloadSets) H1 slots)
         else if readiness < 60 then
           ((adjustedWorkout, VOLUME_REDUCTION), foldl (writeExercise reduceSets) H1 slots)
         else ((adjustedWorkout, MAINTENANCE), H1))"

text \<open>Step 3 at one exercise object: \<open>weight\<close> is written in the object.\<close>

definition progressAtH ::
  "exercisePerformance list \<Rightarrow> store \<times> explanation list \<Rightarrow> addr \<Rightarrow> store \<times> explanation list" where
  "progressAtH lastPerformances st a =
     (let (ex', expl) = progressSlot lastPerformances (exObj (fst st) a)
      in ((fst st)\<lparr>exObj := (exObj (fst st))(a := ex')\<rparr>, snd st @ expl))"

definition loadStageH ::
  "exercisePerformance list \<Rightarrow> addr \<Rightarrow> store \<times> explanation list \<Rightarrow> store \<times> explanation list" where
  "loadStageH lastPerformances adjusted st =
     foldl (progressAtH lastPerformances) st
       (arrObj (fst st) (wo_exercises (wkObj (fst st) adjusted)))"

record dailyResultH =
  readinessScoreH :: rat
  workoutH :: addr
  explanationsH :: "explanation list"

definition generateDailyWorkoutH ::
  "user \<Rightarrow> addr \<Rightarrow> feedback \<Rightarrow> exercisePerformance list \<Rightarrow> store
     \<Rightarrow> (error + dailyResultH) \<times> store" where
  "generateDailyWorkoutH userProfile plannedWorkout dailyFeedback lastPerformances H =
     (let (adjusted, H1) = jsonClone plannedWorkout H in
      case painFlags dailyFeedback of
        None \<Rightarrow> (Inl TypeError, H1)
      | Some flags \<Rightarrow>
          (let (H2, expl1) =
                 (if length flags > 0 then injuryStageH flags adjusted (H1, []) else (H1, []));
               readiness = calculateReadiness dailyFeedback;
               ((volWorkout, volType), H3) = adjustVolumeH adjusted readiness H2;
               (adjusted2, expl2) =
                 (if volType \<noteq> MAINTENANCE then
                    (volWorkout,
                     expl1 @ [explainAdjustment volType
                                (VolumeContext (sleepQuality dailyFeedback)
                                   (if volType = DELOAD then ''50%'' else ''20%''))])
                  else (adjusted, expl1));
               (H4, expl3) =
                 (if readiness \<ge> 40 then loadStageH lastPerformances adjusted2 (H3, [])
                  else (H3, []))
           in (Inr \<lparr>readinessScoreH = readiness, workoutH = adjusted2,
                    explanationsH = expl2 @ expl3\<rparr>, H4)))"

text \<open>
  The caller's workout is in the store when every reference it is reached through has
  been handed out.
\<close>

definition allocated :: "store \<Rightarrow> addr \<Rightarrow> bool" where
  "allocated H p =
     (p < nxt H \<and> wo_exercises (wkObj H p) < nxt H
      \<and> list_all (\<lambda>a. a < nxt H) (arrObj H (wo_exercises (wkObj H p))))"

text \<open>
  Nothing below reference \<open>n\<close> has been written: the objects there are as they were.
\<close>

definition unchangedBelow :: "addr \<Rightarrow> store \<Rightarrow> store \<Rightarrow> bool" where
  "unchangedBelow n H H' =
     (\<forall>a<n. exObj H' a = exObj H a \<and> arrObj H' a = arrObj H a \<and> wkObj H' a = wkObj H a)"

text \<open>
  The workout object \<open>p\<close> is a working copy made at or after reference \<open>n\<close>: its array
  and the exercise objects in it are no older than \<open>n\<close>.
\<close>

definition owned :: "addr \<Rightarrow> store \<Rightarrow> addr \<Rightarrow> bool" where
  "owned n H p =
     (allocated H p \<and> n \<le> wo_exercises (wkObj H p)
      \<and> list_all (\<lambda>a. n \<le> a) (arrObj H (wo_exercises (wkObj H p))))"

text \<open>A working copy whose array holds each exercise object once.\<close>

definition good :: "store \<Rightarrow> addr \<Rightarrow> bool" where
  "good H p = (allocated H p \<and> distinct (arrObj H (wo_exercises (wkObj H p))))"

text \<open>
  One visit of the inner \<open>forEach\<close> of step 1 on the list of exercises in the array: slot
  \<open>i\<close> is read, and written if the exercise is risky.
\<close>

definition slotStep ::
  "string \<Rightarrow> exercise list \<times> explanation list \<Rightarrow> nat \<Rightarrow> exercise list \<times> explanation list" where
  "slotStep pa st i =
     ((fst st)[i := fst (substituteSlot pa (fst st ! i))], snd st @ snd (substituteSlot pa (fst st ! i)))"

text \<open>The result of the engine on the store, with the workout object read out.\<close>

definition resultOf :: "store \<Rightarrow> error + dailyResultH \<Rightarrow> error + dailyResult" where
  "resultOf H res =
     (case res of
        Inl e \<Rightarrow> Inl e
      | Inr r \<Rightarrow> Inr \<lparr>readinessScore = readinessScoreH r, workout = readWorkout H (workoutH r),
                     explanations = explanationsH r\<rparr>)"

text \<open>A store that holds the plan of the test scenarios as workout object 4.\<close>

definition testStore :: store where
  "testStore =
     \<lparr>exObj = (\<lambda>a. exercises testPlan ! (a mod 3)),
      arrObj = (\<lambda>a. if a = 3 then [0, 1, 2] else []),
      wkObj = (\<lambda>a. \<lparr>wo_id = ''w1'', wo_userId = ''u1'', wo_name = ''Full Body A'',
                     wo_exercises = 3, wo_date = ''today''\<rparr>),
      nxt = 5\<rparr>"

section \<open>Double arithmetic\<close>

lemma pow2_less_imp: "(2::rat) powi a < 2 powi b \<Longrightarrow> a < b"
  using power_int_increasing [of b a "2::rat"] by (cases "a < b") auto

lemma pow2_le_imp: "(2::rat) powi a \<le> 2 powi b \<Longrightarrow> a \<le> b"
  using power_int_strict_increasing [of b a "2::rat"] by (cases "a \<le> b") auto

lemma expo_bounds:
  assumes "x \<noteq> 0"
  shows "2 powi (expo x) \<le> \<bar>x\<bar> \<and> \<bar>x\<bar> < 2 powi (expo x + 1)"
proof (cases "1 \<le> \<bar>x\<bar>")
  case True
  let ?n = "\<lfloor>\<bar>x\<bar>\<rfloor>"
  have n: "0 < ?n" using True by simp
  have e: "expo x = bitlen ?n - 1" using True by (simp add: expo_def)
  from bitlen_bounds [OF n] have b: "2 ^ nat (bitlen ?n - 1) \<le> ?n" "?n < 2 ^ nat (bitlen ?n)"
    by simp_all
  have b1: "1 \<le> bitlen ?n" using n by (auto simp: bitlen_alt_def)
  have "rat_of_int (2 ^ nat (bitlen ?n - 1)) \<le> rat_of_int ?n" using b(1) by (simp only: of_int_le_iff)
  also have "\<dots> \<le> \<bar>x\<bar>" by simp
  finally have lo: "2 powi (expo x) \<le> \<bar>x\<bar>"
    using b1 by (simp add: e power_int_def)
  have "?n + 1 \<le> 2 ^ nat (bitlen ?n)" using b(2) by simp
  then have "rat_of_int (?n + 1) \<le> rat_of_int (2 ^ nat (bitlen ?n))" by (simp only: of_int_le_iff)
  moreover have "\<bar>x\<bar> < rat_of_int (?n + 1)" by linarith
  ultimately have hi: "\<bar>x\<bar> < 2 powi (expo x + 1)"
    using b1 by (simp add: e power_int_def)
  from lo hi show ?thesis by simp
next
  case False
  let ?a = "\<bar>x\<bar>"
  let ?n = "\<lfloor>1 / ?a\<rfloor>"
  let ?b = "bitlen ?n"
  have a: "0 < ?a" "?a < 1" using assms False by simp_all
  then have y: "1 < 1 / ?a" by simp
  then have n: "0 < ?n" by simp
  from bitlen_bounds [OF n] have b: "2 ^ nat (?b - 1) \<le> ?n" "?n < 2 ^ nat ?b"
    by simp_all
  have b1: "1 \<le> ?b" using n by (auto simp: bitlen_alt_def)
  have "rat_of_int (2 ^ nat (?b - 1)) \<le> rat_of_int ?n" using b(1) by (simp only: of_int_le_iff)
  also have "\<dots> \<le> 1 / ?a" by simp
  finally have "2 ^ nat (?b - 1) \<le> 1 / ?a" by simp
  then have "?a * 2 ^ nat (?b - 1) \<le> 1" using a(1) by (simp add: field_simps)
  then have "?a \<le> 1 / 2 ^ nat (?b - 1)" by (simp add: pos_le_divide_eq)
  moreover have "(2::rat) powi (1 - ?b) = 1 / 2 ^ nat (?b - 1)"
    using b1 power_int_minus_divide [of "2::rat" "?b - 1"] by (simp add: power_int_def)
  ultimately have up: "?a \<le> 2 powi (1 - ?b)"
    by (simp only:)
  have "?n + 1 \<le> 2 ^ nat ?b" using b(2) by simp
  then have "rat_of_int (?n + 1) \<le> rat_of_int (2 ^ nat ?b)" by (simp only: of_int_le_iff)
  moreover have "1 / ?a < rat_of_int (?n + 1)" by linarith
  ultimately have "1 / ?a < 2 ^ nat ?b" by simp
  then have "1 < ?a * 2 ^ nat ?b" using a(1) by (simp add: field_simps)
  then have "1 / 2 ^ nat ?b < ?a" by (simp add: pos_divide_less_eq)
  moreover have "(2::rat) powi (- ?b) = 1 / 2 ^ nat ?b"
    using b1 power_int_minus_divide [of "2::rat" ?b] by (simp add: power_int_def)
  ultimately have lo: "2 powi (- ?b) < ?a"
    by (simp only:)
  show ?thesis
  proof (cases "?a = 2 powi (1 - ?b)")
    case True
    then have e: "expo x = 1 - ?b" using False by (simp add: expo_def Let_def)
    have "(2::rat) powi (1 - ?b) < 2 powi (1 - ?b + 1)"
      by (rule power_int_strict_increasing) simp_all
    then show ?thesis using True by (simp add: e)
  next
    case neq: False
    then have e: "expo x = - ?b" using False by (simp add: expo_def Let_def)
    have "?a < 2 powi (1 - ?b)" using up neq by simp
    then show ?thesis using lo by (simp add: e)
  qed
qed

lemma roundEven_error: "\<bar>rat_of_int (roundEven y) - y\<bar> \<le> 1 / 2"
proof -
  define n where "n = \<lfloor>y\<rfloor>"
  have f: "0 \<le> y - rat_of_int n" "y - rat_of_int n < 1" unfolding n_def by linarith+
  have "roundEven y = n \<and> y - rat_of_int n \<le> 1 / 2
        \<or> roundEven y = n + 1 \<and> 1 / 2 \<le> y - rat_of_int n"
    unfolding roundEven_def Let_def n_def [symmetric] by auto
  then show ?thesis using f by (auto simp: abs_if)
qed

lemma roundEven_of_int: "roundEven (rat_of_int n) = n"
  by (simp add: roundEven_def)

lemma ulp_pos: "0 < ulp x"
  by (simp add: ulp_def)

lemma roundDouble_error: "\<bar>roundDouble x - x\<bar> \<le> ulp x / 2"
proof (cases "x = 0")
  case True
  then show ?thesis using ulp_pos [of x] by (simp add: roundDouble_def)
next
  case False
  have "rat_of_int (roundEven (x / ulp x)) * ulp x - x
          = (rat_of_int (roundEven (x / ulp x)) - x / ulp x) * ulp x"
    using ulp_pos [of x] by (simp add: left_diff_distrib)
  then have "\<bar>rat_of_int (roundEven (x / ulp x)) * ulp x - x\<bar>
          = \<bar>rat_of_int (roundEven (x / ulp x)) - x / ulp x\<bar> * ulp x"
    using ulp_pos [of x] by (simp add: abs_mult)
  also have "\<dots> \<le> 1 / 2 * ulp x"
    using roundEven_error [of "x / ulp x"] ulp_pos [of x] by (intro mult_right_mono) simp_all
  finally show ?thesis using False by (simp add: roundDouble_def)
qed

lemma ulp_le:
  assumes "x \<noteq> 0" and "\<bar>x\<bar> < 2 powi k" and "- 1021 \<le> k"
  shows "ulp x \<le> 2 powi (k - 53)"
proof -
  from expo_bounds [OF assms(1)] assms(2) have "(2::rat) powi (expo x) < 2 powi k" by simp
  then have "expo x < k" by (rule pow2_less_imp)
  then have "max (expo x) (- 1022) - 52 \<le> k - 53" using assms(3) by simp
  then show ?thesis unfolding ulp_def by (intro power_int_increasing) simp_all
qed

lemma roundDouble_near:
  assumes "\<bar>x\<bar> < 2 powi k" and "- 1021 \<le> k"
  shows "\<bar>roundDouble x - x\<bar> \<le> 2 powi (k - 54)"
proof (cases "x = 0")
  case True
  then show ?thesis by (simp add: roundDouble_def)
next
  case False
  have "2 powi (k - 53) = (2::rat) powi (k - 54) * 2"
    using power_int_add [of "2::rat" "k - 54" 1] by simp
  with ulp_le [OF False assms] roundDouble_error [of x] show ?thesis by simp
qed

lemma roundDouble_exact:
  assumes "\<bar>m\<bar> < 2 ^ 53" and "- 1074 \<le> k"
  shows "roundDouble (rat_of_int m * 2 powi k) = rat_of_int m * 2 powi k"
proof (cases "m = 0")
  case True
  then show ?thesis by (simp add: roundDouble_def)
next
  case False
  let ?x = "rat_of_int m * 2 powi k"
  let ?E = "max (expo ?x) (- 1022) - 52"
  have x0: "?x \<noteq> 0" using False by simp
  have "\<bar>?x\<bar> = rat_of_int \<bar>m\<bar> * 2 powi k" by (simp add: abs_mult)
  also have "\<dots> < 2 ^ 53 * 2 powi k"
  proof -
    have "rat_of_int \<bar>m\<bar> < rat_of_int (2 ^ 53)" using assms(1) by (simp only: of_int_less_iff)
    then show ?thesis by (intro mult_strict_right_mono) simp_all
  qed
  also have "\<dots> = 2 powi (53 + k)"
    using power_int_add [of "2::rat" 53 k] by simp
  finally have "\<bar>?x\<bar> < 2 powi (53 + k)" .
  with expo_bounds [OF x0] have "(2::rat) powi (expo ?x) < 2 powi (53 + k)" by simp
  then have "expo ?x < 53 + k" by (rule pow2_less_imp)
  then have j: "0 \<le> k - ?E" using assms(2) by simp
  have u: "ulp ?x = 2 powi ?E" by (simp add: ulp_def)
  have split: "(2::rat) powi k = 2 powi (k - ?E) * 2 powi ?E"
    using power_int_add [of "2::rat" "k - ?E" ?E] by simp
  have "?x / 2 powi ?E = rat_of_int m * 2 powi (k - ?E)"
    by (subst split) simp
  also have "\<dots> = rat_of_int (m * 2 ^ nat (k - ?E))"
    using j by (simp add: power_int_def)
  finally have q: "?x / 2 powi ?E = rat_of_int (m * 2 ^ nat (k - ?E))" .
  have "roundDouble ?x = rat_of_int (m * 2 ^ nat (k - ?E)) * 2 powi ?E"
    using x0 by (simp only: roundDouble_def u q roundEven_of_int if_False)
  also have "\<dots> = rat_of_int m * (2 powi (k - ?E) * 2 powi ?E)"
    using j by (simp add: power_int_def)
  also have "\<dots> = ?x" by (simp only: split [symmetric])
  finally show ?thesis .
qed

text \<open>The relative form of the rounding error, with the subnormal range accounted for.\<close>

lemma roundDouble_rel: "\<bar>roundDouble x - x\<bar> \<le> \<bar>x\<bar> / 2 ^ 53 + 1 / 2 ^ 1075"
proof (cases "x = 0")
  case True
  then show ?thesis by (simp add: roundDouble_def)
next
  case False
  have half: "ulp x / 2 \<le> \<bar>x\<bar> / 2 ^ 53 + 1 / 2 ^ 1075"
  proof (cases "- 1022 \<le> expo x")
    case True
    then have "ulp x = 2 powi (expo x - 52)" by (simp add: ulp_def max_def)
    also have "\<dots> = 2 powi (expo x) / 2 ^ 52"
      using power_int_add [of "2::rat" "expo x" "- 52"] by (simp add: power_int_minus_divide)
    also have "\<dots> \<le> \<bar>x\<bar> / 2 ^ 52"
      using expo_bounds [OF False] by (simp add: divide_right_mono)
    finally have "ulp x / 2 \<le> \<bar>x\<bar> / 2 ^ 52 / 2" by simp
    also have "\<dots> = \<bar>x\<bar> / 2 ^ 53" by simp
    finally show ?thesis by (simp add: add_increasing2)
  next
    case False
    then have "ulp x = 2 powi (- 1074)" by (simp add: ulp_def max_def)
    then have "ulp x / 2 = 1 / 2 ^ 1075" by (simp add: power_int_minus_divide)
    then show ?thesis by simp
  qed
  with roundDouble_error [of x] show ?thesis by linarith
qed

text \<open>The doubles that the literals of the code denote.\<close>

lemma literal_doubles:
  "roundDouble 0.95 = 4278419646001971 / 2 ^ 52"
  "roundDouble 1.025 = 2308094809027379 / 2 ^ 51"
  "roundDouble 0.7 = 3152519739159347 / 2 ^ 52"
  by code_simp+

section \<open>Readiness score\<close>

text \<open>
  Claim C5. For every feedback record the value returned by \<open>calculateReadiness\<close> lies
  between 0 and 100 inclusive.
\<close>

theorem calculateReadiness_bounds:
  "0 \<le> calculateReadiness fb \<and> calculateReadiness fb \<le> 100"
  by (simp add: calculateReadiness_def Let_def)

text \<open>The clamp never fires: the score before it lies between 15 and 85.\<close>

lemma raw_score_bounds:
  "15 \<le> baselineReadiness + sleepImpact a + sorenessImpact b + stressImpact c
   \<and> baselineReadiness + sleepImpact a + sorenessImpact b + stressImpact c \<le> 85"
  by (simp add: sleepImpact_def sorenessImpact_def stressImpact_def baselineReadiness_def
      split: option.split)

text \<open>
  Claim C2, as amended. For sleep quality 5, soreness 3 and stress level "High",
  \<open>calculateReadiness\<close> returns 55: the baseline 80, minus 10 for sleep (5 is above 4 and
  at most 6, the second bucket), minus 0 for soreness, minus 15 for stress.
\<close>

theorem readiness_sleep5_soreness3_high:
  "calculateReadiness
     \<lparr>sleepQuality = Some 5, soreness = Some 3, stressLevel = Some ''High'', painFlags = pf\<rparr> = 55
   \<and> baselineReadiness = 80 \<and> sleepImpact (Some 5) = - 10 \<and> sorenessImpact (Some 3) = 0
   \<and> stressImpact (Some ''High'') = - 15"
  by (simp add: calculateReadiness_def sleepImpact_def sorenessImpact_def stressImpact_def
      baselineReadiness_def)

text \<open>The score of claim C2 as stated, 45, is not what the engine returns on scenario B.\<close>

theorem readiness_sleep5_soreness3_high_not_45:
  "calculateReadiness feedbackB \<noteq> 45 \<and> sleepImpact (sleepQuality feedbackB) \<noteq> - 20"
  by (simp add: calculateReadiness_def sleepImpact_def sorenessImpact_def stressImpact_def
      baselineReadiness_def feedbackB_def Feedback_def)

section \<open>Load autoregulation\<close>

text \<open>
  Claim C7. With \<open>missedReps\<close> true, \<open>adjustLoad\<close> returns the current weight times 0.95
  and \<open>LOAD_DECREASE\<close>, whatever the RPE and the target RPE are. The product is the
  product of doubles; it is within one part in \<open>2^52\<close> of the exact product. So
  \<open>adjustLoad(100, 8, 8, true)\<close> is 95 and \<open>LOAD_DECREASE\<close>, although with the RPE on
  target the same call without missed reps maintains the load.
\<close>

theorem adjustLoad_missedReps:
  "adjustLoad currentWeight rpeVal targetRpe True
     = \<lparr>newWeight = times_d currentWeight (roundDouble 0.95), adjustmentType = LOAD_DECREASE\<rparr>
   \<and> \<bar>newWeight (adjustLoad currentWeight rpeVal targetRpe True) - currentWeight * 0.95\<bar>
       \<le> \<bar>currentWeight\<bar> / 2 ^ 52 + 1 / 2 ^ 1075
   \<and> adjustLoad 100 8 (Some 8) True = \<lparr>newWeight = 95, adjustmentType = LOAD_DECREASE\<rparr>
   \<and> adjustLoad 100 8 (Some 8) False = \<lparr>newWeight = 100, adjustmentType = MAINTENANCE\<rparr>"
proof -
  let ?c = "roundDouble 0.95"
  have rule: "adjustLoad currentWeight rpeVal targetRpe True
     = \<lparr>newWeight = times_d currentWeight ?c, adjustmentType = LOAD_DECREASE\<rparr>"
    by (simp add: adjustLoad_def)
  have c: "0 \<le> ?c" "?c \<le> 1" "\<bar>?c - 0.95\<bar> \<le> 1 / 2 ^ 54"
    unfolding literal_doubles by simp_all
  have "\<bar>times_d currentWeight ?c - currentWeight * ?c\<bar>
          \<le> \<bar>currentWeight * ?c\<bar> / 2 ^ 53 + 1 / 2 ^ 1075"
    unfolding times_d_def by (rule roundDouble_rel)
  moreover have "\<bar>currentWeight * ?c\<bar> \<le> \<bar>currentWeight\<bar>"
    using c(1,2) by (simp add: abs_mult mult_left_le)
  moreover have "\<bar>currentWeight * ?c - currentWeight * 0.95\<bar> \<le> \<bar>currentWeight\<bar> / 2 ^ 54"
  proof -
    have "\<bar>currentWeight * ?c - currentWeight * 0.95\<bar> = \<bar>currentWeight\<bar> * \<bar>?c - 0.95\<bar>"
      by (simp only: right_diff_distrib [symmetric] abs_mult)
    also have "\<dots> \<le> \<bar>currentWeight\<bar> * (1 / 2 ^ 54)"
      using c(3) by (intro mult_left_mono) simp_all
    finally show ?thesis by simp
  qed
  ultimately have near: "\<bar>times_d currentWeight ?c - currentWeight * 0.95\<bar>
                    \<le> \<bar>currentWeight\<bar> / 2 ^ 52 + 1 / 2 ^ 1075"
  proof -
    assume e1: "\<bar>times_d currentWeight ?c - currentWeight * ?c\<bar>
          \<le> \<bar>currentWeight * ?c\<bar> / 2 ^ 53 + 1 / 2 ^ 1075"
      and e2: "\<bar>currentWeight * ?c\<bar> \<le> \<bar>currentWeight\<bar>"
      and e3: "\<bar>currentWeight * ?c - currentWeight * 0.95\<bar> \<le> \<bar>currentWeight\<bar> / 2 ^ 54"
    from e2 have "\<bar>currentWeight * ?c\<bar> / 2 ^ 53 \<le> \<bar>currentWeight\<bar> / 2 ^ 53"
      by (simp add: divide_right_mono)
    moreover have "\<bar>currentWeight\<bar> / 2 ^ 53 + \<bar>currentWeight\<bar> / 2 ^ 54 \<le> \<bar>currentWeight\<bar> / 2 ^ 52"
      by simp
    ultimately show ?thesis using e1 e3 by linarith
  qed
  have ex1: "adjustLoad 100 8 (Some 8) True = \<lparr>newWeight = 95, adjustmentType = LOAD_DECREASE\<rparr>"
    by code_simp
  have ex2: "adjustLoad 100 8 (Some 8) False = \<lparr>newWeight = 100, adjustmentType = MAINTENANCE\<rparr>"
    by code_simp
  from rule near ex1 ex2 show ?thesis by simp
qed

section \<open>Volume autoregulation\<close>

lemma floor_half: "\<lfloor>rat_of_int n * 0.5\<rfloor> = n div 2"
proof -
  have "rat_of_int n * 0.5 = rat_of_int n / rat_of_int 2" by simp
  then show ?thesis by (simp only: floor_divide_of_int_eq)
qed

text \<open>
  Claim C8. \<open>adjustVolume\<close> has three tiers. Below 40 every exercise's sets become
  \<open>max(1, floor(sets * 0.5))\<close> and the type is \<open>DELOAD\<close>; from 40 and below 60 every
  exercise with more than one set loses one set, the others are untouched, and the type is
  \<open>VOLUME_REDUCTION\<close>; from 60 the workout is unchanged and the type is \<open>MAINTENANCE\<close>.
  So a workout whose exercises all have at least one set keeps at least one set in every
  exercise.
\<close>

theorem adjustVolume_tiers:
  "(score < 40 \<longrightarrow>
      vtype (adjustVolume w score) = DELOAD
      \<and> exercises (vworkout (adjustVolume w score))
          = map (\<lambda>ex. ex\<lparr>sets := max 1 \<lfloor>rat_of_int (sets ex) * 0.5\<rfloor>\<rparr>) (exercises w))
   \<and> (40 \<le> score \<and> score < 60 \<longrightarrow>
      vtype (adjustVolume w score) = VOLUME_REDUCTION
      \<and> exercises (vworkout (adjustVolume w score))
          = map (\<lambda>ex. if sets ex > 1 then ex\<lparr>sets := sets ex - 1\<rparr> else ex) (exercises w))
   \<and> (60 \<le> score \<longrightarrow>
      vtype (adjustVolume w score) = MAINTENANCE \<and> vworkout (adjustVolume w score) = w)
   \<and> ((\<forall>ex \<in> set (exercises w). sets ex \<ge> 1) \<longrightarrow>
      (\<forall>ex \<in> set (exercises (vworkout (adjustVolume w score))). sets ex \<ge> 1))"
  by (auto simp: adjustVolume_def deloadSets_def reduceSets_def)

theorem adjustVolume_tiers_witness:
  "vtype (adjustVolume testPlan 35) = DELOAD
   \<and> map sets (exercises (vworkout (adjustVolume testPlan 35))) = [1, 1, 1]
   \<and> vtype (adjustVolume testPlan 50) = VOLUME_REDUCTION
   \<and> map sets (exercises (vworkout (adjustVolume testPlan 50))) = [2, 2, 2]
   \<and> vtype (adjustVolume testPlan 85) = MAINTENANCE
   \<and> vworkout (adjustVolume testPlan 85) = testPlan
   \<and> list_all (\<lambda>ex. sets ex \<ge> 1) (exercises testPlan)
   \<and> list_all (\<lambda>ex. sets ex \<ge> 1) (exercises (vworkout (adjustVolume testPlan 35)))"
proof -
  have all1: "\<forall>ex \<in> set (exercises testPlan). sets ex \<ge> 1"
    by (simp add: testPlan_def Exercise_def)
  have t35: "vtype (adjustVolume testPlan 35) = DELOAD
      \<and> exercises (vworkout (adjustVolume testPlan 35))
          = map (\<lambda>ex. ex\<lparr>sets := max 1 \<lfloor>rat_of_int (sets ex) * 0.5\<rfloor>\<rparr>) (exercises testPlan)"
    using adjustVolume_tiers [of 35 testPlan] by simp
  have t50: "vtype (adjustVolume testPlan 50) = VOLUME_REDUCTION
      \<and> exercises (vworkout (adjustVolume testPlan 50))
          = map (\<lambda>ex. if sets ex > 1 then ex\<lparr>sets := sets ex - 1\<rparr> else ex) (exercises testPlan)"
    using adjustVolume_tiers [of 50 testPlan] by simp
  have t85: "vtype (adjustVolume testPlan 85) = MAINTENANCE
      \<and> vworkout (adjustVolume testPlan 85) = testPlan"
    using adjustVolume_tiers [of 85 testPlan] by simp
  have keep: "\<forall>ex \<in> set (exercises (vworkout (adjustVolume testPlan 35))). sets ex \<ge> 1"
    using adjustVolume_tiers [of 35 testPlan] all1 by blast
  have s35: "map sets (exercises (vworkout (adjustVolume testPlan 35))) = [1, 1, 1]"
    unfolding conjunct2 [OF t35] by (simp add: testPlan_def Exercise_def floor_half)
  have s50: "map sets (exercises (vworkout (adjustVolume testPlan 50))) = [2, 2, 2]"
    unfolding conjunct2 [OF t50] by (simp add: testPlan_def Exercise_def)
  show ?thesis
    using t35 t50 t85 all1 keep s35 s50 by (simp only: list_all_iff)
qed


section \<open>The pipeline, slot by slot\<close>

lemma includes_str_sublist: "includes_str s t \<longleftrightarrow> sublist t s"
  by (induction s) (simp_all add: sublist_Cons_right)

lemma includes_str_map: "includes_str s t \<Longrightarrow> includes_str (map f s) (map f t)"
  unfolding includes_str_sublist sublist_def by (metis map_append)

lemma substitutePass_fst:
  "fst (substitutePass pa exs) = map (\<lambda>ex. fst (substituteSlot pa ex)) exs"
  by (induction exs) (simp_all add: split_def Let_def)

lemma loadStage_fst: "fst (loadStage h exs) = map (\<lambda>ex. fst (progressSlot h ex)) exs"
  by (induction exs) (simp_all add: split_def Let_def)

lemma injuryStage_fst:
  "fst (injuryStage flags (exs, e))
     = foldl (\<lambda>xs pa. map (\<lambda>ex. fst (substituteSlot pa ex)) xs) exs flags"
  by (induction flags arbitrary: exs e) (simp_all add: split_def substitutePass_fst)

lemma foldl_map_slots:
  "foldl (\<lambda>xs pa. map (f pa) xs) exs flags = map (\<lambda>x. foldl (\<lambda>x pa. f pa x) x flags) exs"
  by (induction flags arbitrary: exs) (simp_all add: comp_def)

lemma injuryStage_slots: "fst (injuryStage flags (exs, e)) = map (substituteAll flags) exs"
  by (simp add: injuryStage_fst foldl_map_slots substituteAll_def)

lemma substituteAll_Nil: "substituteAll [] ex = ex"
  by (simp add: substituteAll_def)

lemma substituteAll_Cons:
  "substituteAll (pa # flags) ex = substituteAll flags (fst (substituteSlot pa ex))"
  by (simp add: substituteAll_def)

text \<open>
  With the pain flags present, the engine returns, and the workout it returns has in each
  slot the planned exercise taken through substitution, volume and load in this order.
\<close>

lemma generateDailyWorkout_slots:
  assumes "painFlags fb = Some flags"
  shows "\<exists>expl. generateDailyWorkout u w fb h =
           Inr \<lparr>readinessScore = calculateReadiness fb,
                workout = w\<lparr>exercises :=
                  map (\<lambda>ex. loadSlot (calculateReadiness fb) h
                               (volumeSlot (calculateReadiness fb) (substituteAll flags ex)))
                    (exercises w)\<rparr>,
                explanations = expl\<rparr>"
  unfolding generateDailyWorkout_def
  by (cases flags)
    (simp_all add: assms Let_def adjustVolume_def volumeSlot_def loadSlot_def
      loadStage_fst split_def comp_def substituteAll_Nil injuryStage_slots
      del: injuryStage.simps)

lemmas engine_defs =
  generateDailyWorkout_def calculateReadiness_def sleepImpact_def sorenessImpact_def
  stressImpact_def baselineReadiness_def adjustVolume_def deloadSets_def reduceSets_def
  substituteSlot_def isExerciseRisky_def riskMap_def getSafeSubstitution_def
  toLowerCase_def toLowerChar_def progressSlot_def adjustLoad_def roundToPlate_def
  explainAdjustment_def

lemmas scenario_defs =
  testUser_def testPlan_def Exercise_def Feedback_def ExercisePerformance_def historyA_def
  feedbackA_def feedbackB_def feedbackC_def

lemma floor_numeral_div_rat:
  "\<lfloor>(numeral a :: rat) / numeral b\<rfloor> = numeral a div numeral b"
  by (metis floor_divide_of_int_eq of_int_numeral)

lemma progressSlot_fields:
  "eid (fst (progressSlot h ex)) = eid ex \<and> name (fst (progressSlot h ex)) = name ex
   \<and> sets (fst (progressSlot h ex)) = sets ex \<and> reps (fst (progressSlot h ex)) = reps ex
   \<and> rpeTarget (fst (progressSlot h ex)) = rpeTarget ex"
  by (simp add: progressSlot_def Let_def split: option.split)

lemma progressSlot_no_record:
  "find (\<lambda>p. exerciseId p = eid ex) h = None \<Longrightarrow> progressSlot h ex = (ex, [])"
  by (simp add: progressSlot_def)

lemma volumeSlot_fields:
  "eid (volumeSlot rd ex) = eid ex \<and> name (volumeSlot rd ex) = name ex
   \<and> weight (volumeSlot rd ex) = weight ex \<and> reps (volumeSlot rd ex) = reps ex
   \<and> rpeTarget (volumeSlot rd ex) = rpeTarget ex"
  by (simp add: volumeSlot_def deloadSets_def reduceSets_def)

lemma loadSlot_fields:
  "eid (loadSlot rd h ex) = eid ex \<and> name (loadSlot rd h ex) = name ex
   \<and> sets (loadSlot rd h ex) = sets ex \<and> reps (loadSlot rd h ex) = reps ex
   \<and> rpeTarget (loadSlot rd h ex) = rpeTarget ex"
  by (simp add: loadSlot_def progressSlot_fields)


lemma isPlateMultiple_iff: "isPlateMultiple w \<longleftrightarrow> (\<exists>k::int. w = rat_of_int k * 2.5)"
proof
  assume "isPlateMultiple w"
  then show "\<exists>k::int. w = rat_of_int k * 2.5"
    unfolding isPlateMultiple_def by metis
next
  assume "\<exists>k::int. w = rat_of_int k * 2.5"
  then obtain k :: int where "w = rat_of_int k * 2.5" by blast
  then show "isPlateMultiple w" by (simp add: isPlateMultiple_def)
qed


section \<open>Input handling\<close>

text \<open>
  Claim C1, as amended. \<open>generateDailyWorkout\<close> validates nothing. It fails exactly when
  the feedback has no \<open>painFlags\<close>, with the \<open>TypeError\<close> of reading \<open>length\<close> of
  \<open>undefined\<close>, raised before any adjustment is made. With \<open>painFlags\<close> present it
  returns a result for every input: the readiness of the feedback and a workout with as
  many slots as the plan. A missing \<open>sleepQuality\<close>, \<open>soreness\<close> or \<open>stressLevel\<close>
  selects no readiness bucket and so contributes 0 to the score.
\<close>

theorem generateDailyWorkout_fails_iff:
  "(generateDailyWorkout u w fb h = Inl TypeError \<longleftrightarrow> painFlags fb = None)
   \<and> (painFlags fb \<noteq> None \<longrightarrow>
        (\<exists>r. generateDailyWorkout u w fb h = Inr r
           \<and> readinessScore r = calculateReadiness fb
           \<and> length (exercises (workout r)) = length (exercises w)))
   \<and> sleepImpact None = 0 \<and> sorenessImpact None = 0 \<and> stressImpact None = 0"
proof -
  have none: "painFlags fb = None \<Longrightarrow> generateDailyWorkout u w fb h = Inl TypeError"
    by (simp add: generateDailyWorkout_def)
  have some: "\<exists>r. generateDailyWorkout u w fb h = Inr r
           \<and> readinessScore r = calculateReadiness fb
           \<and> length (exercises (workout r)) = length (exercises w)"
    if "painFlags fb = Some flags" for flags
    using generateDailyWorkout_slots [OF that, of u w h] by auto
  have "generateDailyWorkout u w fb h = Inl TypeError \<longleftrightarrow> painFlags fb = None"
  proof (cases "painFlags fb")
    case None
    then show ?thesis using none by simp
  next
    case (Some flags)
    then show ?thesis using some [OF Some] by auto
  qed
  moreover have "painFlags fb \<noteq> None \<longrightarrow>
        (\<exists>r. generateDailyWorkout u w fb h = Inr r
           \<and> readinessScore r = calculateReadiness fb
           \<and> length (exercises (workout r)) = length (exercises w))"
    using some by auto
  ultimately show ?thesis
    by (simp add: sleepImpact_def sorenessImpact_def stressImpact_def)
qed


theorem generateDailyWorkout_fails_iff_witness:
  "painFlags feedbackC \<noteq> None
   \<and> (\<exists>r. generateDailyWorkout testUser testPlan feedbackC historyA = Inr r
          \<and> readinessScore r = calculateReadiness feedbackC
          \<and> length (exercises (workout r)) = length (exercises testPlan))
   \<and> generateDailyWorkout testUser testPlan (feedbackC\<lparr>painFlags := None\<rparr>) historyA
       = Inl TypeError"
  using generateDailyWorkout_fails_iff [of testUser testPlan feedbackC historyA]
    generateDailyWorkout_fails_iff
      [of testUser testPlan "feedbackC\<lparr>painFlags := None\<rparr>" historyA]
  by (simp add: feedbackC_def Feedback_def)

text \<open>
  Claim C1 as stated fails: with \<open>sleepQuality\<close> missing the engine returns a result
  scored as if sleep were neutral; sleep 8 and soreness 9, outside 1 to 5, are scored; a
  workout with no exercises is returned as it is.
\<close>

theorem no_validation_examples:
  "generateDailyWorkout testUser testPlan
     \<lparr>sleepQuality = None, soreness = Some 2, stressLevel = Some ''Low'', painFlags = Some []\<rparr> []
     = Inr \<lparr>readinessScore = 80, workout = testPlan, explanations = []\<rparr>
   \<and> generateDailyWorkout testUser testPlan (Feedback 8 9 ''Low'' []) []
     = Inr \<lparr>readinessScore = 75, workout = testPlan, explanations = []\<rparr>
   \<and> generateDailyWorkout testUser (testPlan\<lparr>exercises := []\<rparr>) feedbackA historyA
     = Inr \<lparr>readinessScore = 85, workout = testPlan\<lparr>exercises := []\<rparr>, explanations = []\<rparr>"
  by (simp add: engine_defs scenario_defs)


section \<open>Rounding of adjusted weights\<close>

text \<open>
  \<open>Math.round(newWeight / 2.5) * 2.5\<close> on doubles. For a weight below \<open>2^32\<close> in size
  the quotient is rounded once, to a double; \<open>Math.round\<close> takes that double to the nearest
  integer, ties upwards; and the last product, five times an integer halved, is a double
  as it stands. So the result is a multiple of 2.5, and it lies within half a plate of the
  weight up to the rounding of the quotient.
\<close>

lemma mathRound_near: "\<bar>rat_of_int (mathRound q) - q\<bar> \<le> 1 / 2"
  unfolding mathRound_def by linarith

lemma roundToPlate_props:
  assumes "\<bar>nw\<bar> < 2 ^ 32"
  shows "roundToPlate nw = rat_of_int (mathRound (divide_d nw 2.5)) * 2.5"
    and "isPlateMultiple (roundToPlate nw)"
    and "\<bar>roundToPlate nw - nw\<bar> \<le> 1.25 + 1 / 1000000"
proof -
  define x where "x = nw / 2.5"
  define q where "q = divide_d nw 2.5"
  define R where "R = mathRound q"
  have xb: "\<bar>x\<bar> < 2 ^ 31" using assms by (simp add: x_def)
  then have "\<bar>x\<bar> < 2 powi 31" by simp
  from roundDouble_near [OF this] have "\<bar>q - x\<bar> \<le> 2 powi (- 23)"
    by (simp add: q_def divide_d_def x_def)
  then have qx: "\<bar>q - x\<bar> \<le> 1 / 2 ^ 23"
    by (simp add: power_int_minus_divide)
  have Rq: "\<bar>rat_of_int R - q\<bar> \<le> 1 / 2" unfolding R_def by (rule mathRound_near)
  have "\<bar>rat_of_int R\<bar> \<le> \<bar>rat_of_int R - q\<bar> + \<bar>q - x\<bar> + \<bar>x\<bar>" by linarith
  moreover have "(1::rat) / 2 ^ 23 \<le> 1 / 2" by simp
  ultimately have "\<bar>rat_of_int R\<bar> < 2 ^ 31 + 1" using xb qx Rq by linarith
  then have "rat_of_int \<bar>R\<bar> < rat_of_int (2 ^ 31 + 1)" by simp
  then have Rb: "\<bar>R\<bar> < 2 ^ 31 + 1" by (simp only: of_int_less_iff)
  have "roundDouble (rat_of_int (5 * R) * 2 powi (- 1)) = rat_of_int (5 * R) * 2 powi (- 1)"
    by (rule roundDouble_exact) (use Rb in simp_all)
  moreover have "rat_of_int (5 * R) * 2 powi (- 1) = rat_of_int R * 2.5"
    by (simp add: power_int_minus_divide)
  ultimately have "times_d (rat_of_int R) 2.5 = rat_of_int R * 2.5"
    by (simp only: times_d_def)
  then show rtp: "roundToPlate nw = rat_of_int (mathRound (divide_d nw 2.5)) * 2.5"
    by (simp only: roundToPlate_def R_def q_def)
  then show "isPlateMultiple (roundToPlate nw)"
    unfolding isPlateMultiple_iff by blast
  have "roundToPlate nw - nw = (rat_of_int R - x) * (5 / 2)"
    by (simp add: rtp R_def q_def x_def algebra_simps)
  then have "\<bar>roundToPlate nw - nw\<bar> = \<bar>rat_of_int R - x\<bar> * (5 / 2)"
    by (simp only: abs_mult)
  also have "\<dots> \<le> (1 / 2 + 1 / 2 ^ 23) * (5 / 2)"
    using qx Rq by (intro mult_right_mono) linarith+
  also have "\<dots> \<le> 1.25 + 1 / 1000000" by simp
  finally show "\<bar>roundToPlate nw - nw\<bar> \<le> 1.25 + 1 / 1000000" .
qed

lemma times_d_bound:
  assumes "\<bar>W\<bar> \<le> 1000000000" and "0 \<le> c" and "c \<le> 2"
  shows "\<bar>times_d W c\<bar> < 2 ^ 32"
proof -
  have "\<bar>W * c\<bar> = \<bar>W\<bar> * c" using assms(2) by (simp add: abs_mult)
  also have "\<dots> \<le> 1000000000 * 2"
    using assms by (intro mult_mono) simp_all
  finally have b: "\<bar>W * c\<bar> \<le> 2000000000" by simp
  then have "\<bar>W * c\<bar> < 2 powi 31" by simp
  from roundDouble_near [OF this] have "\<bar>times_d W c - W * c\<bar> \<le> 2 powi (- 23)"
    by (simp add: times_d_def)
  then have "\<bar>times_d W c - W * c\<bar> \<le> 1 / 2 ^ 23"
    by (simp add: power_int_minus_divide)
  moreover have "\<bar>times_d W c\<bar> \<le> \<bar>times_d W c - W * c\<bar> + \<bar>W * c\<bar>" by linarith
  moreover have "(1::rat) / 2 ^ 23 \<le> 1" by simp
  moreover have "(2000000000::rat) + 1 < 2 ^ 32" by simp
  ultimately show ?thesis using b by linarith
qed

lemma literal_bounds:
  "0 \<le> roundDouble 0.95 \<and> roundDouble 0.95 \<le> 2 \<and> 0 \<le> roundDouble 1.025
   \<and> roundDouble 1.025 \<le> 2"
  unfolding literal_doubles by simp

lemma newWeight_bound:
  assumes "\<bar>W\<bar> \<le> 1000000000"
  shows "\<bar>newWeight (adjustLoad W r t m)\<bar> < 2 ^ 32"
proof -
  have a: "\<bar>times_d W (roundDouble 0.95)\<bar> < 2 ^ 32"
    using literal_bounds by (intro times_d_bound [OF assms]) simp_all
  have b: "\<bar>times_d W (roundDouble 1.025)\<bar> < 2 ^ 32"
    using literal_bounds by (intro times_d_bound [OF assms]) simp_all
  have c: "\<bar>W\<bar> < 2 ^ 32" using assms by simp
  show ?thesis
    unfolding adjustLoad_def Let_def using a b c by (simp split: if_splits)
qed





section \<open>Injury substitution\<close>

lemma toLowerCase_knee: "toLowerCase ''knee'' = ''knee''"
  by (simp add: toLowerCase_def toLowerChar_def)

lemma includes_lower_knee:
  "includes_str painArea ''knee'' \<Longrightarrow> includes_str (toLowerCase painArea) ''knee''"
  using includes_str_map [of painArea "''knee''" toLowerChar] toLowerCase_knee
  by (simp add: toLowerCase_def)

lemma isExerciseRisky_iff:
  "isExerciseRisky ex painArea \<longleftrightarrow>
     (includes_str (toLowerCase painArea) ''knee''
        \<and> (includes_str (name ex) ''Squat'' \<or> includes_str (name ex) ''Lunge''
             \<or> includes_str (name ex) ''Leg Press''))
     \<or> (includes_str (toLowerCase painArea) ''shoulder''
        \<and> (includes_str (name ex) ''Bench Press'' \<or> includes_str (name ex) ''Overhead Press''
             \<or> includes_str (name ex) ''Dip''))
     \<or> (includes_str (toLowerCase painArea) ''back''
        \<and> (includes_str (name ex) ''Deadlift'' \<or> includes_str (name ex) ''Row''
             \<or> includes_str (name ex) ''Good Morning''))"
  by (auto simp: isExerciseRisky_def riskMap_def)

lemma knee_substitution:
  assumes "includes_str painArea ''knee''"
    and "includes_str (name ex) ''Squat'' \<or> includes_str (name ex) ''Lunge''
           \<or> includes_str (name ex) ''Leg Press''"
  shows "fst (substituteSlot painArea ex)
           = \<lparr>eid = eid ex @ ''_sub'', name = ''Glute Bridge'', etype = None, muscleGroups = None,
              weight = 0, sets = 3, reps = 15, rpeTarget = None\<rparr>"
proof -
  have "isExerciseRisky ex painArea"
    using assms includes_lower_knee by (simp add: isExerciseRisky_iff)
  then show ?thesis
    using assms(1) by (simp add: substituteSlot_def getSafeSubstitution_def Let_def)
qed

lemma not_risky_unchanged:
  "\<not> isExerciseRisky ex painArea \<Longrightarrow> substituteSlot painArea ex = (ex, [])"
  by (simp add: substituteSlot_def)

lemma toLowerCase_back: "toLowerCase ''back'' = ''back''"
  by (simp add: toLowerCase_def toLowerChar_def)

lemma includes_lower_back:
  "includes_str painArea ''back'' \<Longrightarrow> includes_str (toLowerCase painArea) ''back''"
  using includes_str_map [of painArea "''back''" toLowerChar] toLowerCase_back
  by (simp add: toLowerCase_def)

lemma back_substitution:
  assumes "includes_str (name ex) ''Row''"
    and "includes_str painArea ''back''" and "\<not> includes_str painArea ''knee''"
    and "\<not> includes_str painArea ''shoulder''"
  shows "fst (substituteSlot painArea ex)
           = \<lparr>eid = eid ex @ ''_sub'', name = ''Chest Supported Row'', etype = None,
              muscleGroups = None, weight = times_d (weight ex) (roundDouble 0.7), sets = 3,
              reps = 10, rpeTarget = None\<rparr>"
proof -
  have "isExerciseRisky ex painArea"
    using assms(1) includes_lower_back [OF assms(2)] by (simp add: isExerciseRisky_iff)
  then show ?thesis
    using assms(2-4) by (simp add: substituteSlot_def getSafeSubstitution_def Let_def)
qed

lemma substituteAll_append:
  "substituteAll (xs @ ys) ex = substituteAll ys (substituteAll xs ex)"
  by (simp add: substituteAll_def)

lemma substituteAll_harmless:
  "list_all (\<lambda>f. \<not> isExerciseRisky ex f) fs \<Longrightarrow> substituteAll fs ex = ex"
  by (induction fs) (simp_all add: substituteAll_Nil substituteAll_Cons not_risky_unchanged)

text \<open>
  "Chest Supported Row" is on the risk list of the back and on no other: a flag is risky
  for it exactly when the flag, in lower case, contains "back".
\<close>

lemma chest_supported_row_risky:
  "name ex = ''Chest Supported Row'' \<Longrightarrow>
     isExerciseRisky ex f \<longleftrightarrow> includes_str (toLowerCase f) ''back''"
  by (simp add: isExerciseRisky_iff)

lemma back_twice:
  assumes "includes_str (name ex) ''Row''"
    and f1: "includes_str f1 ''back''" "\<not> includes_str f1 ''knee''"
      "\<not> includes_str f1 ''shoulder''"
    and f2: "includes_str f2 ''back''" "\<not> includes_str f2 ''knee''"
      "\<not> includes_str f2 ''shoulder''"
    and "list_all (\<lambda>f. \<not> isExerciseRisky ex f) pre"
    and "list_all (\<lambda>f. \<not> includes_str (toLowerCase f) ''back'') (mid @ post)"
  shows "substituteAll (pre @ [f1] @ mid @ [f2] @ post) ex
           = \<lparr>eid = eid ex @ ''_sub_sub'', name = ''Chest Supported Row'', etype = None,
              muscleGroups = None,
              weight = times_d (times_d (weight ex) (roundDouble 0.7)) (roundDouble 0.7),
              sets = 3, reps = 10, rpeTarget = None\<rparr>"
proof -
  let ?once = "\<lparr>eid = eid ex @ ''_sub'', name = ''Chest Supported Row'', etype = None,
              muscleGroups = None, weight = times_d (weight ex) (roundDouble 0.7), sets = 3,
              reps = 10, rpeTarget = None\<rparr>"
  let ?twice = "\<lparr>eid = eid ex @ ''_sub_sub'', name = ''Chest Supported Row'', etype = None,
              muscleGroups = None,
              weight = times_d (times_d (weight ex) (roundDouble 0.7)) (roundDouble 0.7),
              sets = 3, reps = 10, rpeTarget = None\<rparr>"
  have s1: "substituteAll pre ex = ex"
    using assms(8) by (rule substituteAll_harmless)
  have s2: "substituteAll [f1] ex = ?once"
    by (simp only: substituteAll_Cons substituteAll_Nil back_substitution [OF assms(1) f1])
  have quiet: "list_all (\<lambda>f. \<not> isExerciseRisky e f) fs"
    if "name e = ''Chest Supported Row''"
      and "list_all (\<lambda>f. \<not> includes_str (toLowerCase f) ''back'') fs" for e fs
    using that by (simp add: chest_supported_row_risky)
  have s3: "substituteAll mid ?once = ?once"
    using assms(9) by (intro substituteAll_harmless quiet) simp_all
  have again: "includes_str (name ?once) ''Row''" by simp
  have s4: "substituteAll [f2] ?once = ?twice"
    by (simp only: substituteAll_Cons substituteAll_Nil back_substitution [OF again f2]) simp
  have s5: "substituteAll post ?twice = ?twice"
    using assms(9) by (intro substituteAll_harmless quiet) simp_all
  show ?thesis
    by (simp only: substituteAll_append s1 s2 s3 s4 s5)
qed

text \<open>
  The injury scenario of the tests: "Barbell Squat" with pain flag "left\_knee" yields
  "Glute Bridge", weight 0, 3 sets of 15, in that slot, and the other slots as planned.
\<close>

lemma scenarioC_glute_bridge:
  "generateDailyWorkout testUser testPlan feedbackC historyA
     = Inr \<lparr>readinessScore = 80,
            workout = testPlan\<lparr>exercises :=
              [\<lparr>eid = ''sq_sub'', name = ''Glute Bridge'', etype = None,
                muscleGroups = None, weight = 0, sets = 3, reps = 15, rpeTarget = None\<rparr>,
               Exercise ''bp'' ''Bench Press'' ''compound'' [''chest''] 80 3 5,
               Exercise ''row'' ''Barbell Row'' ''compound'' [''back''] 60 3 10]\<rparr>,
            explanations =
              [Explanation INJURY_SUBSTITUTION
                 (InjuryContext ''left_knee'' ''Barbell Squat'' ''Glute Bridge'')]\<rparr>"
  by code_simp

text \<open>
  For a single pain flag that contains "knee" as written, in lower case, the substitution
  loop puts the Glute Bridge into every slot whose exercise name contains "Squat", "Lunge"
  or "Leg Press", and leaves alone every slot that is not risky for the flag.
\<close>

lemma knee_flag_stage:
  assumes "includes_str painArea ''knee''" and "i < length exs"
  shows "(includes_str (name (exs ! i)) ''Squat'' \<or> includes_str (name (exs ! i)) ''Lunge''
            \<or> includes_str (name (exs ! i)) ''Leg Press'' \<longrightarrow>
          fst (injuryStage [painArea] (exs, [])) ! i
            = \<lparr>eid = eid (exs ! i) @ ''_sub'', name = ''Glute Bridge'', etype = None,
               muscleGroups = None, weight = 0, sets = 3, reps = 15, rpeTarget = None\<rparr>)
         \<and> (\<not> isExerciseRisky (exs ! i) painArea \<longrightarrow>
              fst (injuryStage [painArea] (exs, [])) ! i = exs ! i)"
  using assms
  by (simp only: injuryStage_slots nth_map substituteAll_Cons substituteAll_Nil)
     (simp add: knee_substitution not_risky_unchanged)

text \<open>
  Claim C6, at the input where the engine departs from it. The pain flag "Left\_Knee"
  contains "knee" when case is ignored, and \<open>isExerciseRisky\<close>, which lower-cases the
  flag, finds "Barbell Squat" risky. \<open>getSafeSubstitution\<close> tests the flag as written,
  finds no "knee" in it, and returns the rest placeholder: the slot holds
  "Rest (Left\_Knee pain)" with id "rest" and no sets, not the Glute Bridge. The same
  happens for "Mild Knee Pain", the report of the design document's injury scenario.
\<close>

theorem mixed_case_knee_flag_rest_placeholder:
  "generateDailyWorkout testUser testPlan (Feedback 7 2 ''Low'' [''Left_Knee'']) historyA
     = Inr \<lparr>readinessScore = 80,
            workout = testPlan\<lparr>exercises :=
              [\<lparr>eid = ''rest'', name = ''Rest (Left_Knee pain)'', etype = None,
                muscleGroups = None, weight = 0, sets = 0, reps = 0, rpeTarget = None\<rparr>,
               Exercise ''bp'' ''Bench Press'' ''compound'' [''chest''] 80 3 5,
               Exercise ''row'' ''Barbell Row'' ''compound'' [''back''] 60 3 10]\<rparr>,
            explanations =
              [Explanation INJURY_SUBSTITUTION
                 (InjuryContext ''Left_Knee'' ''Barbell Squat'' ''Rest (Left_Knee pain)'')]\<rparr>
   \<and> includes_str (name (exercises testPlan ! 0)) ''Squat''
   \<and> includes_str (toLowerCase ''Left_Knee'') ''knee''
   \<and> isExerciseRisky (exercises testPlan ! 0) ''Left_Knee''
   \<and> \<not> includes_str ''Left_Knee'' ''knee''
   \<and> name (fst (substituteSlot ''Mild Knee Pain'' (exercises testPlan ! 0)))
       = ''Rest (Mild Knee Pain pain)''"
  by code_simp

text \<open>
  Claim C9, as amended. A substitute made for a pain flag that contains "knee", "shoulder"
  or "back" as written carries the original exercise's id with "\_sub" appended, which
  differs from the original id: the performance records of the replaced exercise never
  match the substituted slot, and the load step leaves the substitute as it is. The rest
  placeholder, returned for every other flag, carries the fixed id "rest". In either case
  the load step skips the slot when no record of the history is stored under the
  substitute's own id.
\<close>

theorem substitute_ids:
  "(includes_str painArea ''knee'' \<or> includes_str painArea ''shoulder''
      \<or> includes_str painArea ''back'' \<longrightarrow>
        eid (getSafeSubstitution ex painArea) = eid ex @ ''_sub''
        \<and> eid (getSafeSubstitution ex painArea) \<noteq> eid ex
        \<and> progressSlot (filter (\<lambda>p. exerciseId p = eid ex) h) (getSafeSubstitution ex painArea)
            = (getSafeSubstitution ex painArea, []))
   \<and> (\<not> (includes_str painArea ''knee'' \<or> includes_str painArea ''shoulder''
          \<or> includes_str painArea ''back'') \<longrightarrow>
        eid (getSafeSubstitution ex painArea) = ''rest'')
   \<and> (list_all (\<lambda>p. exerciseId p \<noteq> eid (getSafeSubstitution ex painArea)) h \<longrightarrow>
        progressSlot h (getSafeSubstitution ex painArea) = (getSafeSubstitution ex painArea, []))"
proof -
  have skip: "progressSlot h' e = (e, [])" if "list_all (\<lambda>p. exerciseId p \<noteq> eid e) h'"
    for h' e
  proof -
    from that have "find (\<lambda>p. exerciseId p = eid e) h' = None"
      by (simp add: find_None_iff list_all_iff)
    then show ?thesis by (rule progressSlot_no_record)
  qed
  have ne: "eid ex @ ''_sub'' \<noteq> eid ex" by simp
  have orig: "list_all (\<lambda>p. exerciseId p \<noteq> eid ex @ ''_sub'') (filter (\<lambda>p. exerciseId p = eid ex) h)"
    by (simp add: list_all_iff)
  have mapped: "eid (getSafeSubstitution ex painArea) = eid ex @ ''_sub''"
    if "includes_str painArea ''knee'' \<or> includes_str painArea ''shoulder''
          \<or> includes_str painArea ''back''"
    using that by (auto simp: getSafeSubstitution_def)
  have rest: "eid (getSafeSubstitution ex painArea) = ''rest''"
    if "\<not> (includes_str painArea ''knee'' \<or> includes_str painArea ''shoulder''
          \<or> includes_str painArea ''back'')"
    using that by (simp add: getSafeSubstitution_def)
  have c1: "includes_str painArea ''knee'' \<or> includes_str painArea ''shoulder''
      \<or> includes_str painArea ''back'' \<longrightarrow>
        eid (getSafeSubstitution ex painArea) = eid ex @ ''_sub''
        \<and> eid (getSafeSubstitution ex painArea) \<noteq> eid ex
        \<and> progressSlot (filter (\<lambda>p. exerciseId p = eid ex) h) (getSafeSubstitution ex painArea)
            = (getSafeSubstitution ex painArea, [])"
  proof
    assume m: "includes_str painArea ''knee'' \<or> includes_str painArea ''shoulder''
      \<or> includes_str painArea ''back''"
    have i: "eid (getSafeSubstitution ex painArea) = eid ex @ ''_sub''" by (rule mapped [OF m])
    have "list_all (\<lambda>p. exerciseId p \<noteq> eid (getSafeSubstitution ex painArea))
            (filter (\<lambda>p. exerciseId p = eid ex) h)"
      using orig by (simp only: i)
    from skip [OF this] i ne
    show "eid (getSafeSubstitution ex painArea) = eid ex @ ''_sub''
        \<and> eid (getSafeSubstitution ex painArea) \<noteq> eid ex
        \<and> progressSlot (filter (\<lambda>p. exerciseId p = eid ex) h) (getSafeSubstitution ex painArea)
            = (getSafeSubstitution ex painArea, [])"
      by simp
  qed
  have c2: "\<not> (includes_str painArea ''knee'' \<or> includes_str painArea ''shoulder''
          \<or> includes_str painArea ''back'') \<longrightarrow>
        eid (getSafeSubstitution ex painArea) = ''rest''"
    using rest by blast
  have c3: "list_all (\<lambda>p. exerciseId p \<noteq> eid (getSafeSubstitution ex painArea)) h \<longrightarrow>
        progressSlot h (getSafeSubstitution ex painArea) = (getSafeSubstitution ex painArea, [])"
    using skip by blast
  from c1 c2 c3 show ?thesis by (intro conjI)
qed

theorem substitute_ids_witness:
  "includes_str ''left_knee'' ''knee''
   \<and> eid (getSafeSubstitution (exercises testPlan ! 0) ''left_knee'') = ''sq_sub''
   \<and> progressSlot (filter (\<lambda>p. exerciseId p = eid (exercises testPlan ! 0)) historyA)
        (getSafeSubstitution (exercises testPlan ! 0) ''left_knee'')
       = (getSafeSubstitution (exercises testPlan ! 0) ''left_knee'', [])
   \<and> \<not> (includes_str ''elbow'' ''knee'' \<or> includes_str ''elbow'' ''shoulder''
          \<or> includes_str ''elbow'' ''back'')
   \<and> eid (getSafeSubstitution (exercises testPlan ! 0) ''elbow'') = ''rest''
   \<and> list_all (\<lambda>p. exerciseId p \<noteq> eid (getSafeSubstitution (exercises testPlan ! 0) ''elbow''))
        historyA
   \<and> progressSlot historyA (getSafeSubstitution (exercises testPlan ! 0) ''elbow'')
       = (getSafeSubstitution (exercises testPlan ! 0) ''elbow'', [])"
proof -
  have k: "includes_str ''left_knee'' ''knee''" by simp
  have e: "\<not> (includes_str ''elbow'' ''knee'' \<or> includes_str ''elbow'' ''shoulder''
          \<or> includes_str ''elbow'' ''back'')" by simp
  have sq: "eid (exercises testPlan ! 0) = ''sq''" by (simp add: testPlan_def Exercise_def)
  have l: "list_all (\<lambda>p. exerciseId p \<noteq> eid (getSafeSubstitution (exercises testPlan ! 0) ''elbow''))
        historyA"
    by (simp add: getSafeSubstitution_def historyA_def ExercisePerformance_def)
  from substitute_ids [of "''left_knee''" "exercises testPlan ! 0" historyA]
    substitute_ids [of "''elbow''" "exercises testPlan ! 0" historyA] k e l
  show ?thesis by (simp add: sq)
qed

text \<open>
  Claim C9 as stated fails: the rest placeholder made for the flag "elbow" has the id
  "rest", which does not start with the original id "sq"; and a record stored under
  "sq\_sub" is matched by the substituted slot, whose weight becomes the record's 20.
\<close>

theorem rest_placeholder_id_and_matching_record:
  "eid (getSafeSubstitution (exercises testPlan ! 0) ''elbow'') = ''rest''
   \<and> eid (exercises testPlan ! 0) = ''sq'' \<and> \<not> prefix ''sq'' ''rest''
   \<and> (case generateDailyWorkout testUser testPlan feedbackC
              [ExercisePerformance ''sq_sub'' 20 15 3 8] of
         Inl e \<Rightarrow> [] | Inr r \<Rightarrow> map (\<lambda>ex. (eid ex, weight ex)) (exercises (workout r)))
       = [(''sq_sub'', 20), (''bp'', 80), (''row'', 60)]"
  by code_simp


text \<open>
  Claim C10, as amended. The back-pain substitute "Chest Supported Row" matches the back
  risk list itself, since its name contains "Row". So for a slot whose exercise name
  contains "Row" and pain flags among which two name the back (each contains "back" and
  neither "knee" nor "shoulder"), the flags before them not risky for the slot and no
  other flag after the first naming the back in any letter case, the substitution loop of
  \<open>generateDailyWorkout\<close> replaces the slot twice: the slot then holds "Chest Supported
  Row", 3 sets of 10, with the original id with "\_sub" appended twice and the weight
  \<open>(weight * 0.7) * 0.7\<close>, each product a product of doubles. The workout returned has
  this name and this id in the slot. Its weight is this weight when readiness is below 40
  or the history holds no record under the doubly suffixed id; otherwise the load step
  decides it from the first such record, here for a recorded weight of at most \<open>10^9\<close>
  in size: the record's weight for \<open>MAINTENANCE\<close>, \<open>Math.round(newWeight / 2.5) * 2.5\<close>
  else, with target RPE 8 and 10 reps expected.
\<close>

theorem back_flag_twice_substitutes_twice:
  assumes "painFlags fb = Some (pre @ [f1] @ mid @ [f2] @ post)"
    and "i < length (exercises w)"
    and "includes_str (name (exercises w ! i)) ''Row''"
    and "includes_str f1 ''back'' \<and> \<not> includes_str f1 ''knee'' \<and> \<not> includes_str f1 ''shoulder''"
    and "includes_str f2 ''back'' \<and> \<not> includes_str f2 ''knee'' \<and> \<not> includes_str f2 ''shoulder''"
    and "list_all (\<lambda>f. \<not> isExerciseRisky (exercises w ! i) f) pre"
    and "list_all (\<lambda>f. \<not> includes_str (toLowerCase f) ''back'') (mid @ post)"
  shows "fst (injuryStage (pre @ [f1] @ mid @ [f2] @ post) (exercises w, [])) ! i
           = \<lparr>eid = eid (exercises w ! i) @ ''_sub_sub'', name = ''Chest Supported Row'',
              etype = None, muscleGroups = None,
              weight = times_d (times_d (weight (exercises w ! i)) (roundDouble 0.7))
                         (roundDouble 0.7),
              sets = 3, reps = 10, rpeTarget = None\<rparr>
         \<and> (\<exists>r. generateDailyWorkout u w fb h = Inr r
               \<and> length (exercises (workout r)) = length (exercises w)
               \<and> name (exercises (workout r) ! i) = ''Chest Supported Row''
               \<and> eid (exercises (workout r) ! i) = eid (exercises w ! i) @ ''_sub_sub''
               \<and> (calculateReadiness fb < 40
                      \<or> find (\<lambda>p. exerciseId p = eid (exercises w ! i) @ ''_sub_sub'') h = None
                    \<longrightarrow> weight (exercises (workout r) ! i)
                          = times_d (times_d (weight (exercises w ! i)) (roundDouble 0.7))
                              (roundDouble 0.7))
               \<and> (\<forall>p. calculateReadiness fb \<ge> 40
                        \<and> find (\<lambda>p. exerciseId p = eid (exercises w ! i) @ ''_sub_sub'') h = Some p
                        \<and> \<bar>pweight p\<bar> \<le> 1000000000
                    \<longrightarrow> weight (exercises (workout r) ! i)
                          = (let a = adjustLoad (pweight p) (rpe p) None (completedReps p < 10)
                             in if adjustmentType a \<noteq> MAINTENANCE
                                then rat_of_int (mathRound (divide_d (newWeight a) 2.5)) * 2.5
                                else pweight p)))"
proof -
  let ?ex = "exercises w ! i"
  let ?flags = "pre @ [f1] @ mid @ [f2] @ post"
  let ?rd = "calculateReadiness fb"
  let ?w2 = "times_d (times_d (weight ?ex) (roundDouble 0.7)) (roundDouble 0.7)"
  define sub where "sub = substituteAll ?flags ?ex"
  have stage: "fst (injuryStage ?flags (exercises w, [])) ! i = sub"
    using assms(2) unfolding sub_def by (simp only: injuryStage_slots nth_map)
  have sub: "sub = \<lparr>eid = eid ?ex @ ''_sub_sub'', name = ''Chest Supported Row'',
              etype = None, muscleGroups = None, weight = ?w2, sets = 3,
              reps = 10, rpeTarget = None\<rparr>"
    unfolding sub_def
    using assms(4,5) by (intro back_twice [OF assms(3) _ _ _ _ _ _ assms(6,7)]) simp_all
  from generateDailyWorkout_slots [OF assms(1), of u w h] obtain expl where
    run: "generateDailyWorkout u w fb h =
           Inr \<lparr>readinessScore = ?rd,
                workout = w\<lparr>exercises :=
                  map (\<lambda>ex. loadSlot ?rd h (volumeSlot ?rd (substituteAll ?flags ex)))
                    (exercises w)\<rparr>,
                explanations = expl\<rparr>"
    by blast
  let ?r = "\<lparr>readinessScore = ?rd,
                workout = w\<lparr>exercises :=
                  map (\<lambda>ex. loadSlot ?rd h (volumeSlot ?rd (substituteAll ?flags ex)))
                    (exercises w)\<rparr>,
                explanations = expl\<rparr>"
  let ?v = "volumeSlot ?rd sub"
  let ?last = "loadSlot ?rd h ?v"
  have slot: "exercises (workout ?r) ! i = ?last"
    using assms(2) by (simp add: sub_def)
  have v: "eid ?v = eid ?ex @ ''_sub_sub''" "weight ?v = ?w2" "reps ?v = 10"
    "rpeTarget ?v = None"
    by (simp_all add: volumeSlot_fields sub)
  have nm: "name ?last = ''Chest Supported Row''"
    by (simp add: loadSlot_fields volumeSlot_fields sub)
  have ident: "eid ?last = eid ?ex @ ''_sub_sub''"
    by (simp add: loadSlot_fields volumeSlot_fields sub)
  have stays: "?rd < 40 \<or> find (\<lambda>p. exerciseId p = eid ?ex @ ''_sub_sub'') h = None
                 \<longrightarrow> weight ?last = ?w2"
    unfolding loadSlot_def progressSlot_def v by (auto simp: v)
  have moves: "weight ?last
                 = (let a = adjustLoad (pweight p) (rpe p) None (completedReps p < 10)
                    in if adjustmentType a \<noteq> MAINTENANCE
                       then rat_of_int (mathRound (divide_d (newWeight a) 2.5)) * 2.5
                       else pweight p)"
    if "?rd \<ge> 40 \<and> find (\<lambda>p. exerciseId p = eid ?ex @ ''_sub_sub'') h = Some p
          \<and> \<bar>pweight p\<bar> \<le> 1000000000" for p
  proof -
    have "\<bar>newWeight (adjustLoad (pweight p) (rpe p) None (completedReps p < 10))\<bar> < 2 ^ 32"
      using that by (intro newWeight_bound) simp
    note roundToPlate_props(1) [OF this]
    then show ?thesis
      unfolding loadSlot_def progressSlot_def v Let_def using that by simp
  qed
  have "length (exercises (workout ?r)) = length (exercises w)" by simp
  with run slot nm ident stays moves have
    "\<exists>r. generateDailyWorkout u w fb h = Inr r
               \<and> length (exercises (workout r)) = length (exercises w)
               \<and> name (exercises (workout r) ! i) = ''Chest Supported Row''
               \<and> eid (exercises (workout r) ! i) = eid ?ex @ ''_sub_sub''
               \<and> (?rd < 40 \<or> find (\<lambda>p. exerciseId p = eid ?ex @ ''_sub_sub'') h = None
                    \<longrightarrow> weight (exercises (workout r) ! i) = ?w2)
               \<and> (\<forall>p. ?rd \<ge> 40
                        \<and> find (\<lambda>p. exerciseId p = eid ?ex @ ''_sub_sub'') h = Some p
                        \<and> \<bar>pweight p\<bar> \<le> 1000000000
                    \<longrightarrow> weight (exercises (workout r) ! i)
                          = (let a = adjustLoad (pweight p) (rpe p) None (completedReps p < 10)
                             in if adjustmentType a \<noteq> MAINTENANCE
                                then rat_of_int (mathRound (divide_d (newWeight a) 2.5)) * 2.5
                                else pweight p))"
    by (metis (no_types, lifting))
  with stage sub show ?thesis by (simp only:)
qed

theorem back_flag_twice_witness:
  "includes_str (name (exercises testPlan ! 2)) ''Row''
   \<and> list_all (\<lambda>f. \<not> isExerciseRisky (exercises testPlan ! 2) f) [''left_knee'']
   \<and> list_all (\<lambda>f. \<not> includes_str (toLowerCase f) ''back'') ([''shoulder''] @ [])
   \<and> (\<exists>r. generateDailyWorkout testUser testPlan
              (Feedback 7 2 ''Low'' [''left_knee'', ''back'', ''shoulder'', ''lower back''])
              historyA = Inr r
        \<and> name (exercises (workout r) ! 2) = ''Chest Supported Row''
        \<and> eid (exercises (workout r) ! 2) = ''row_sub_sub''
        \<and> weight (exercises (workout r) ! 2) = 4137682157646643 / 2 ^ 47)
   \<and> (\<exists>r. generateDailyWorkout testUser testPlan
              (Feedback 7 2 ''Low'' [''left_knee'', ''back'', ''shoulder'', ''lower back''])
              [ExercisePerformance ''row_sub_sub'' 30 10 3 7] = Inr r
        \<and> eid (exercises (workout r) ! 2) = ''row_sub_sub''
        \<and> adjustLoad 30 7 None False
            = \<lparr>newWeight = 8655355533852671 / 2 ^ 48, adjustmentType = LOAD_INCREASE\<rparr>
        \<and> weight (exercises (workout r) ! 2) = 30)"
proof -
  let ?fb = "Feedback 7 2 ''Low'' [''left_knee'', ''back'', ''shoulder'', ''lower back'']"
  let ?p = "ExercisePerformance ''row_sub_sub'' 30 10 3 7"
  have pf: "painFlags ?fb = Some ([''left_knee''] @ [''back''] @ [''shoulder''] @ [''lower back''] @ [])"
    by (simp add: Feedback_def)
  have len: "2 < length (exercises testPlan)" by (simp add: testPlan_def)
  have row: "includes_str (name (exercises testPlan ! 2)) ''Row''"
    by code_simp
  have f1: "includes_str ''back'' ''back'' \<and> \<not> includes_str ''back'' ''knee''
              \<and> \<not> includes_str ''back'' ''shoulder''"
    by code_simp
  have f2: "includes_str ''lower back'' ''back'' \<and> \<not> includes_str ''lower back'' ''knee''
              \<and> \<not> includes_str ''lower back'' ''shoulder''"
    by code_simp
  have pre: "list_all (\<lambda>f. \<not> isExerciseRisky (exercises testPlan ! 2) f) [''left_knee'']"
    by code_simp
  have rest: "list_all (\<lambda>f. \<not> includes_str (toLowerCase f) ''back'') ([''shoulder''] @ [])"
    by code_simp
  have orig: "eid (exercises testPlan ! 2) @ ''_sub_sub'' = ''row_sub_sub''"
    by (simp add: testPlan_def Exercise_def)
  have none: "find (\<lambda>p. exerciseId p = eid (exercises testPlan ! 2) @ ''_sub_sub'') historyA = None"
    by code_simp
  have val: "times_d (times_d (weight (exercises testPlan ! 2)) (roundDouble 0.7)) (roundDouble 0.7)
               = 4137682157646643 / 2 ^ 47"
    by code_simp
  have some: "calculateReadiness ?fb \<ge> 40
                \<and> find (\<lambda>p. exerciseId p = eid (exercises testPlan ! 2) @ ''_sub_sub'') [?p] = Some ?p
                \<and> \<bar>pweight ?p\<bar> \<le> 1000000000"
    by code_simp
  have adj: "adjustLoad 30 7 None False
               = \<lparr>newWeight = 8655355533852671 / 2 ^ 48, adjustmentType = LOAD_INCREASE\<rparr>"
    by code_simp
  have val2: "(let a = adjustLoad (pweight ?p) (rpe ?p) None (completedReps ?p < 10)
               in if adjustmentType a \<noteq> MAINTENANCE
                  then rat_of_int (mathRound (divide_d (newWeight a) 2.5)) * 2.5
                  else pweight ?p) = 30"
    by code_simp
  from back_flag_twice_substitutes_twice [OF pf len row f1 f2 pre rest, of testUser historyA,
      THEN conjunct2] none
  obtain r where "generateDailyWorkout testUser testPlan ?fb historyA = Inr r"
    and "name (exercises (workout r) ! 2) = ''Chest Supported Row''"
    and "eid (exercises (workout r) ! 2) = eid (exercises testPlan ! 2) @ ''_sub_sub''"
    and "weight (exercises (workout r) ! 2)
           = times_d (times_d (weight (exercises testPlan ! 2)) (roundDouble 0.7)) (roundDouble 0.7)"
    by blast
  then have first: "\<exists>r. generateDailyWorkout testUser testPlan ?fb historyA = Inr r
        \<and> name (exercises (workout r) ! 2) = ''Chest Supported Row''
        \<and> eid (exercises (workout r) ! 2) = ''row_sub_sub''
        \<and> weight (exercises (workout r) ! 2) = 4137682157646643 / 2 ^ 47"
    unfolding orig val by blast
  from back_flag_twice_substitutes_twice [OF pf len row f1 f2 pre rest, of testUser "[?p]",
      THEN conjunct2] some
  obtain r' where "generateDailyWorkout testUser testPlan ?fb [?p] = Inr r'"
    and "eid (exercises (workout r') ! 2) = eid (exercises testPlan ! 2) @ ''_sub_sub''"
    and "weight (exercises (workout r') ! 2)
           = (let a = adjustLoad (pweight ?p) (rpe ?p) None (completedReps ?p < 10)
              in if adjustmentType a \<noteq> MAINTENANCE
                 then rat_of_int (mathRound (divide_d (newWeight a) 2.5)) * 2.5
                 else pweight ?p)"
    by blast
  then have second: "\<exists>r. generateDailyWorkout testUser testPlan ?fb [?p] = Inr r
        \<and> eid (exercises (workout r) ! 2) = ''row_sub_sub''
        \<and> adjustLoad 30 7 None False
            = \<lparr>newWeight = 8655355533852671 / 2 ^ 48, adjustmentType = LOAD_INCREASE\<rparr>
        \<and> weight (exercises (workout r) ! 2) = 30"
    unfolding orig val2 using adj by blast
  from row pre rest first second show ?thesis by blast
qed

text \<open>
  Claim C10 as stated fails: with pain flags "back", "back" and a performance record
  stored under "row\_sub\_sub", the slot returned for "Barbell Row", planned at 60, is
  named "Chest Supported Row" and has the doubly suffixed id, but its weight is the
  record's 20, carried over by the load step, and not \<open>(60 * 0.7) * 0.7\<close>.
\<close>

theorem back_flag_twice_record_decides_weight:
  "(case generateDailyWorkout testUser testPlan (Feedback 7 2 ''Low'' [''back'', ''back''])
           [ExercisePerformance ''row_sub_sub'' 20 10 3 8] of
      Inl e \<Rightarrow> []
    | Inr r \<Rightarrow> map (\<lambda>ex. (eid ex, name ex, weight ex)) (exercises (workout r)))
     = [(''sq'', ''Barbell Squat'', 100), (''bp'', ''Bench Press'', 80),
        (''row_sub_sub'', ''Chest Supported Row'', 20)]
   \<and> includes_str (name (exercises testPlan ! 2)) ''Row''
   \<and> weight (exercises testPlan ! 2) = 60
   \<and> times_d (times_d 60 (roundDouble 0.7)) (roundDouble 0.7) = 4137682157646643 / 2 ^ 47
   \<and> (4137682157646643 / 2 ^ 47 :: rat) \<noteq> 20"
  by code_simp


section \<open>The caller's workout is not written\<close>

lemma unchangedBelow_refl: "unchangedBelow n H H"
  by (simp add: unchangedBelow_def)

lemma unchangedBelow_trans:
  "unchangedBelow n H1 H2 \<Longrightarrow> unchangedBelow n H2 H3 \<Longrightarrow> unchangedBelow n H1 H3"
  by (simp add: unchangedBelow_def)

lemma unchangedBelow_mono: "unchangedBelow n H H' \<Longrightarrow> m \<le> n \<Longrightarrow> unchangedBelow m H H'"
  by (simp add: unchangedBelow_def)

lemma allocated_unchanged:
  assumes "allocated H p" and "unchangedBelow (nxt H) H H'" and "nxt H \<le> nxt H'"
  shows "allocated H' p \<and> readWorkout H' p = readWorkout H p
         \<and> wkObj H' p = wkObj H p
         \<and> arrObj H' (wo_exercises (wkObj H' p)) = arrObj H (wo_exercises (wkObj H p))"
proof -
  from assms(1) have p: "p < nxt H" and arr: "wo_exercises (wkObj H p) < nxt H"
    and els: "\<forall>a \<in> set (arrObj H (wo_exercises (wkObj H p))). a < nxt H"
    by (simp_all add: allocated_def list_all_iff)
  have wk: "wkObj H' p = wkObj H p" using assms(2) p by (simp add: unchangedBelow_def)
  have ar: "arrObj H' (wo_exercises (wkObj H p)) = arrObj H (wo_exercises (wkObj H p))"
    using assms(2) arr by (simp add: unchangedBelow_def)
  have ex: "map (exObj H') (arrObj H (wo_exercises (wkObj H p)))
              = map (exObj H) (arrObj H (wo_exercises (wkObj H p)))"
    using assms(2) els by (simp add: unchangedBelow_def)
  show ?thesis
    using p arr els assms(3) by (auto simp: allocated_def list_all_iff readWorkout_def wk ar ex Let_def)
qed

lemma owned_unchanged:
  assumes "owned n H p" and "unchangedBelow (nxt H) H H'" and "nxt H \<le> nxt H'"
  shows "owned n H' p"
proof -
  from assms(1) have al: "allocated H p" by (simp add: owned_def)
  from allocated_unchanged [OF al assms(2,3)] assms(1) show ?thesis
    by (auto simp: owned_def)
qed

lemma allocExercises_frame:
  "allocExercises es H = (as, H') \<Longrightarrow>
     unchangedBelow (nxt H) H H' \<and> nxt H \<le> nxt H'
     \<and> list_all (\<lambda>a. nxt H \<le> a \<and> a < nxt H') as
     \<and> arrObj H' = arrObj H \<and> wkObj H' = wkObj H"
proof (induction es arbitrary: H as H')
  case Nil
  then show ?case by (simp add: unchangedBelow_def)
next
  case (Cons e es)
  obtain a H1 where a: "allocExercise e H = (a, H1)" by (cases "allocExercise e H")
  obtain as1 H2 where r: "allocExercises es H1 = (as1, H2)" by (cases "allocExercises es H1")
  from Cons.prems a r have eq: "as = a # as1" "H' = H2" by simp_all
  from a have a1: "a = nxt H" "nxt H1 = Suc (nxt H)" "unchangedBelow (nxt H) H H1"
    "arrObj H1 = arrObj H" "wkObj H1 = wkObj H"
    by (auto simp: allocExercise_def unchangedBelow_def)
  from Cons.IH [OF r] have ih: "unchangedBelow (nxt H1) H1 H2" "nxt H1 \<le> nxt H2"
    "list_all (\<lambda>a. nxt H1 \<le> a \<and> a < nxt H2) as1" "arrObj H2 = arrObj H1" "wkObj H2 = wkObj H1"
    by simp_all
  have "unchangedBelow (nxt H) H H2"
    using a1(3) ih(1) a1(2) by (simp add: unchangedBelow_def)
  moreover have "list_all (\<lambda>a. nxt H \<le> a \<and> a < nxt H2) as1"
    using ih(3) a1(2) by (auto simp: list_all_iff)
  ultimately show ?case
    using eq a1 ih by simp
qed

lemma allocWorkout_frame:
  assumes "allocWorkout w H = (p, H')"
  shows "unchangedBelow (nxt H) H H' \<and> nxt H \<le> nxt H' \<and> owned (nxt H) H' p"
proof -
  obtain as H1 where al: "allocExercises (exercises w) H = (as, H1)"
    by (cases "allocExercises (exercises w) H")
  from allocExercises_frame [OF al] have f1: "unchangedBelow (nxt H) H H1" "nxt H \<le> nxt H1"
    "list_all (\<lambda>a. nxt H \<le> a \<and> a < nxt H1) as"
    by simp_all
  from assms al have p: "p = Suc (nxt H1)"
    and H': "H' = H1\<lparr>arrObj := (arrObj H1)(nxt H1 := as),
                     wkObj := (wkObj H1)(Suc (nxt H1) :=
                        \<lparr>wo_id = wid w, wo_userId = userId w, wo_name = wname w,
                         wo_exercises = nxt H1, wo_date = date w\<rparr>),
                     nxt := Suc (Suc (nxt H1))\<rparr>"
    by (auto simp: allocWorkout_def allocArray_def Let_def)
  have "unchangedBelow (nxt H) H H'"
    using f1(1,2) by (simp add: unchangedBelow_def H')
  moreover have "nxt H \<le> nxt H'" using f1(2) by (simp add: H')
  moreover have "owned (nxt H) H' p"
    using f1(2,3) by (auto simp: owned_def allocated_def p H' list_all_iff)
  ultimately show ?thesis by simp
qed


lemma foldl_invariant:
  assumes "P s" and "\<And>s x. P s \<Longrightarrow> x \<in> set xs \<Longrightarrow> P (f s x)"
  shows "P (foldl f s xs)"
  using assms by (induction xs arbitrary: s) simp_all

lemma jsonClone_frame:
  assumes "jsonClone p H = (q, H')"
  shows "unchangedBelow (nxt H) H H' \<and> nxt H \<le> nxt H' \<and> owned (nxt H) H' q"
  using assms allocWorkout_frame by (simp add: jsonClone_def)

lemma substituteAtH_frame:
  assumes "owned n (fst st) adj"
  shows "owned n (fst (substituteAtH painArea adj st index)) adj
         \<and> unchangedBelow n (fst st) (fst (substituteAtH painArea adj st index))
         \<and> nxt (fst st) \<le> nxt (fst (substituteAtH painArea adj st index))"
proof -
  let ?H = "fst st"
  let ?arr = "wo_exercises (wkObj ?H adj)"
  from assms have adj: "adj < nxt ?H" and arr: "?arr < nxt ?H" "n \<le> ?arr"
    and els: "\<forall>a \<in> set (arrObj ?H ?arr). a < nxt ?H \<and> n \<le> a"
    by (auto simp: owned_def allocated_def list_all_iff)
  show ?thesis
  proof (cases "isExerciseRisky (exObj ?H (arrObj ?H ?arr ! index)) painArea")
    case False
    then show ?thesis
      using assms by (simp add: substituteAtH_def Let_def unchangedBelow_refl)
  next
    case True
    let ?sub = "getSafeSubstitution (exObj ?H (arrObj ?H ?arr ! index)) painArea"
    let ?H2 = "?H\<lparr>exObj := (exObj ?H)(nxt ?H := ?sub), nxt := Suc (nxt ?H),
                   arrObj := (arrObj ?H)(?arr := (arrObj ?H ?arr)[index := nxt ?H])\<rparr>"
    have res: "fst (substituteAtH painArea adj st index) = ?H2"
      using True by (simp add: substituteAtH_def Let_def allocExercise_def)
    have sub: "set ((arrObj ?H ?arr)[index := nxt ?H]) \<subseteq> insert (nxt ?H) (set (arrObj ?H ?arr))"
      by (rule set_update_subset_insert)
    have els2: "a < Suc (nxt ?H) \<and> n \<le> a"
      if "a \<in> set ((arrObj ?H ?arr)[index := nxt ?H])" for a
    proof -
      from that sub have "a = nxt ?H \<or> a \<in> set (arrObj ?H ?arr)" by blast
      then show ?thesis using els arr by (auto simp: less_Suc_eq)
    qed
    have "owned n ?H2 adj"
      using adj arr els2 by (auto simp: owned_def allocated_def list_all_iff)
    moreover have "unchangedBelow n ?H ?H2"
      using arr by (auto simp: unchangedBelow_def)
    ultimately show ?thesis by (simp add: res)
  qed
qed

lemma substitutePassH_frame:
  assumes "owned n (fst st) adj"
  shows "owned n (fst (substitutePassH adj st painArea)) adj
         \<and> unchangedBelow n (fst st) (fst (substitutePassH adj st painArea))
         \<and> nxt (fst st) \<le> nxt (fst (substitutePassH adj st painArea))"
  unfolding substitutePassH_def
proof (rule foldl_invariant
    [where P = "\<lambda>s. owned n (fst s) adj \<and> unchangedBelow n (fst st) (fst s)
                  \<and> nxt (fst st) \<le> nxt (fst s)"])
  show "owned n (fst st) adj \<and> unchangedBelow n (fst st) (fst st) \<and> nxt (fst st) \<le> nxt (fst st)"
    using assms by (simp add: unchangedBelow_refl)
next
  fix s :: "store \<times> explanation list" and x :: nat
  assume inv: "owned n (fst s) adj \<and> unchangedBelow n (fst st) (fst s)
                 \<and> nxt (fst st) \<le> nxt (fst s)"
  from substituteAtH_frame [of n s adj painArea x] inv
  show "owned n (fst (substituteAtH painArea adj s x)) adj
          \<and> unchangedBelow n (fst st) (fst (substituteAtH painArea adj s x))
          \<and> nxt (fst st) \<le> nxt (fst (substituteAtH painArea adj s x))"
    using unchangedBelow_trans by (meson le_trans)
qed

lemma injuryStageH_frame:
  assumes "owned n (fst st) adj"
  shows "owned n (fst (injuryStageH flags adj st)) adj
         \<and> unchangedBelow n (fst st) (fst (injuryStageH flags adj st))
         \<and> nxt (fst st) \<le> nxt (fst (injuryStageH flags adj st))"
  unfolding injuryStageH_def
proof (rule foldl_invariant
    [where P = "\<lambda>s. owned n (fst s) adj \<and> unchangedBelow n (fst st) (fst s)
                  \<and> nxt (fst st) \<le> nxt (fst s)"])
  show "owned n (fst st) adj \<and> unchangedBelow n (fst st) (fst st) \<and> nxt (fst st) \<le> nxt (fst st)"
    using assms by (simp add: unchangedBelow_refl)
next
  fix s :: "store \<times> explanation list" and x :: string
  assume inv: "owned n (fst s) adj \<and> unchangedBelow n (fst st) (fst s)
                 \<and> nxt (fst st) \<le> nxt (fst s)"
  from substitutePassH_frame [of n s adj x] inv
  show "owned n (fst (substitutePassH adj s x)) adj
          \<and> unchangedBelow n (fst st) (fst (substitutePassH adj s x))
          \<and> nxt (fst st) \<le> nxt (fst (substitutePassH adj s x))"
    using unchangedBelow_trans by (meson le_trans)
qed


lemma writeExercise_frame:
  assumes "n \<le> a"
  shows "unchangedBelow n H (writeExercise f H a) \<and> arrObj (writeExercise f H a) = arrObj H
         \<and> wkObj (writeExercise f H a) = wkObj H \<and> nxt (writeExercise f H a) = nxt H"
  using assms by (auto simp: writeExercise_def unchangedBelow_def)

lemma writeExercises_frame:
  assumes "list_all (\<lambda>a. n \<le> a) as"
  shows "unchangedBelow n H (foldl (writeExercise f) H as)
         \<and> arrObj (foldl (writeExercise f) H as) = arrObj H
         \<and> wkObj (foldl (writeExercise f) H as) = wkObj H
         \<and> nxt (foldl (writeExercise f) H as) = nxt H"
proof (rule foldl_invariant
    [where P = "\<lambda>s. unchangedBelow n H s \<and> arrObj s = arrObj H \<and> wkObj s = wkObj H
                  \<and> nxt s = nxt H"])
  show "unchangedBelow n H H \<and> arrObj H = arrObj H \<and> wkObj H = wkObj H \<and> nxt H = nxt H"
    by (simp add: unchangedBelow_refl)
next
  fix s :: store and x :: addr
  assume inv: "unchangedBelow n H s \<and> arrObj s = arrObj H \<and> wkObj s = wkObj H \<and> nxt s = nxt H"
    and x: "x \<in> set as"
  from x assms have "n \<le> x" by (simp add: list_all_iff)
  from writeExercise_frame [OF this, of s f] inv
  show "unchangedBelow n H (writeExercise f s x) \<and> arrObj (writeExercise f s x) = arrObj H
          \<and> wkObj (writeExercise f s x) = wkObj H \<and> nxt (writeExercise f s x) = nxt H"
    using unchangedBelow_trans by auto
qed

lemma owned_same_shape:
  assumes "owned n H p" and "arrObj H' = arrObj H" and "wkObj H' = wkObj H" and "nxt H' = nxt H"
  shows "owned n H' p"
  using assms by (simp add: owned_def allocated_def)

lemma adjustVolumeH_frame:
  assumes "adjustVolumeH p score H = ((q, ty), H')"
  shows "unchangedBelow (nxt H) H H' \<and> nxt H \<le> nxt H' \<and> owned (nxt H) H' q"
proof -
  obtain c H1 where cl: "jsonClone p H = (c, H1)" by (cases "jsonClone p H")
  from jsonClone_frame [OF cl] have f1: "unchangedBelow (nxt H) H H1" "nxt H \<le> nxt H1"
    "owned (nxt H) H1 c"
    by simp_all
  let ?slots = "arrObj H1 (wo_exercises (wkObj H1 c))"
  from f1(3) have slots: "list_all (\<lambda>a. nxt H \<le> a) ?slots" by (simp add: owned_def)
  have q: "q = c" using assms cl by (simp add: adjustVolumeH_def Let_def split: if_splits)
  have "H' = H1 \<or> H' = foldl (writeExercise deloadSets) H1 ?slots
          \<or> H' = foldl (writeExercise reduceSets) H1 ?slots"
    using assms cl by (auto simp: adjustVolumeH_def Let_def split: if_splits)
  then have "unchangedBelow (nxt H) H1 H' \<and> arrObj H' = arrObj H1 \<and> wkObj H' = wkObj H1
               \<and> nxt H' = nxt H1"
    using writeExercises_frame [OF slots] by (auto simp: unchangedBelow_refl)
  then show ?thesis
    using f1 q unchangedBelow_trans owned_same_shape by metis
qed

lemma progressAtH_frame:
  assumes "n \<le> a"
  shows "unchangedBelow n (fst st) (fst (progressAtH h st a))
         \<and> arrObj (fst (progressAtH h st a)) = arrObj (fst st)
         \<and> wkObj (fst (progressAtH h st a)) = wkObj (fst st)
         \<and> nxt (fst (progressAtH h st a)) = nxt (fst st)"
  using assms by (auto simp: progressAtH_def unchangedBelow_def split_def Let_def)

lemma loadStageH_frame:
  assumes "owned n (fst st) adj"
  shows "unchangedBelow n (fst st) (fst (loadStageH h adj st))
         \<and> nxt (fst (loadStageH h adj st)) = nxt (fst st)"
  unfolding loadStageH_def
proof -
  let ?as = "arrObj (fst st) (wo_exercises (wkObj (fst st) adj))"
  from assms have els: "list_all (\<lambda>a. n \<le> a) ?as" by (simp add: owned_def)
  have "unchangedBelow n (fst st) (fst (foldl (progressAtH h) st ?as))
        \<and> arrObj (fst (foldl (progressAtH h) st ?as)) = arrObj (fst st)
        \<and> wkObj (fst (foldl (progressAtH h) st ?as)) = wkObj (fst st)
        \<and> nxt (fst (foldl (progressAtH h) st ?as)) = nxt (fst st)"
  proof (rule foldl_invariant
      [where P = "\<lambda>s. unchangedBelow n (fst st) (fst s) \<and> arrObj (fst s) = arrObj (fst st)
                    \<and> wkObj (fst s) = wkObj (fst st) \<and> nxt (fst s) = nxt (fst st)"])
    show "unchangedBelow n (fst st) (fst st) \<and> arrObj (fst st) = arrObj (fst st)
            \<and> wkObj (fst st) = wkObj (fst st) \<and> nxt (fst st) = nxt (fst st)"
      by (simp add: unchangedBelow_refl)
  next
    fix s :: "store \<times> explanation list" and x :: addr
    assume inv: "unchangedBelow n (fst st) (fst s) \<and> arrObj (fst s) = arrObj (fst st)
                   \<and> wkObj (fst s) = wkObj (fst st) \<and> nxt (fst s) = nxt (fst st)"
      and x: "x \<in> set ?as"
    from x els have "n \<le> x" by (simp add: list_all_iff)
    from progressAtH_frame [OF this, of s h] inv
    show "unchangedBelow n (fst st) (fst (progressAtH h s x))
            \<and> arrObj (fst (progressAtH h s x)) = arrObj (fst st)
            \<and> wkObj (fst (progressAtH h s x)) = wkObj (fst st)
            \<and> nxt (fst (progressAtH h s x)) = nxt (fst st)"
      using unchangedBelow_trans by auto
  qed
  then show "unchangedBelow n (fst st) (fst (foldl (progressAtH h) st ?as))
        \<and> nxt (fst (foldl (progressAtH h) st ?as)) = nxt (fst st)"
    by simp
qed

lemma generateDailyWorkoutH_frame:
  assumes "generateDailyWorkoutH u p fb h H = (res, H')"
  shows "unchangedBelow (nxt H) H H' \<and> nxt H \<le> nxt H'"
proof -
  let ?n = "nxt H"
  obtain adj H1 where cl: "jsonClone p H = (adj, H1)" by (cases "jsonClone p H")
  from jsonClone_frame [OF cl] have f1: "unchangedBelow ?n H H1" "?n \<le> nxt H1" "owned ?n H1 adj"
    by simp_all
  show ?thesis
  proof (cases "painFlags fb")
    case None
    then have "H' = H1" using assms cl by (simp add: generateDailyWorkoutH_def)
    then show ?thesis using f1 by simp
  next
    case (Some flags)
    obtain H2 e1 where st2:
      "(if flags \<noteq> [] then injuryStageH flags adj (H1, []) else (H1, [])) = (H2, e1)"
      by (cases "if flags \<noteq> [] then injuryStageH flags adj (H1, []) else (H1, [])")
    have f2: "owned ?n H2 adj \<and> unchangedBelow ?n H1 H2 \<and> nxt H1 \<le> nxt H2"
    proof (cases "flags \<noteq> []")
      case True
      with st2 have "fst (injuryStageH flags adj (H1, [])) = H2" by simp
      with injuryStageH_frame [of ?n "(H1, [])" adj flags] f1(3) show ?thesis by auto
    next
      case False
      with st2 have "H2 = H1" by simp
      with f1(3) show ?thesis by (simp add: unchangedBelow_refl)
    qed
    obtain vw vt H3 where vol: "adjustVolumeH adj (calculateReadiness fb) H2 = ((vw, vt), H3)"
      by (cases "adjustVolumeH adj (calculateReadiness fb) H2") auto
    from adjustVolumeH_frame [OF vol] have f3: "unchangedBelow (nxt H2) H2 H3"
      "nxt H2 \<le> nxt H3" "owned (nxt H2) H3 vw"
      by simp_all
    have n2: "?n \<le> nxt H2" using f1(2) f2 by simp
    have f3n: "unchangedBelow ?n H2 H3"
      using f3(1) n2 by (rule unchangedBelow_mono)
    have own_vw: "owned ?n H3 vw"
      using f3(3) n2 by (auto simp: owned_def list_all_iff)
    have own_adj: "owned ?n H3 adj"
      using owned_unchanged [OF _ f3(1,2)] f2 by simp
    define adj2 where "adj2 = (if vt \<noteq> MAINTENANCE then vw else adj)"
    have own2: "owned ?n H3 adj2" using own_vw own_adj by (simp add: adj2_def)
    obtain H4 e3 where st4:
      "(if 40 \<le> calculateReadiness fb then loadStageH h adj2 (H3, []) else (H3, [])) = (H4, e3)"
      by (cases "if 40 \<le> calculateReadiness fb then loadStageH h adj2 (H3, []) else (H3, [])")
    have f4: "unchangedBelow ?n H3 H4 \<and> nxt H4 = nxt H3"
    proof (cases "40 \<le> calculateReadiness fb")
      case True
      with st4 have "fst (loadStageH h adj2 (H3, [])) = H4" by simp
      with loadStageH_frame [of ?n "(H3, [])" adj2 h] own2 show ?thesis by auto
    next
      case False
      with st4 have "H4 = H3" by simp
      then show ?thesis by (simp add: unchangedBelow_refl)
    qed
    have "H' = H4"
    proof (cases "vt \<noteq> MAINTENANCE")
      case True
      then have "adj2 = vw" by (simp add: adj2_def)
      with st4 have "(if 40 \<le> calculateReadiness fb then loadStageH h vw (H3, []) else (H3, []))
                       = (H4, e3)"
        by (simp only:)
      then show ?thesis
        using assms cl Some st2 vol True by (simp add: generateDailyWorkoutH_def)
    next
      case False
      then have "adj2 = adj" by (simp add: adj2_def)
      with st4 have "(if 40 \<le> calculateReadiness fb then loadStageH h adj (H3, []) else (H3, []))
                       = (H4, e3)"
        by (simp only:)
      then show ?thesis
        using assms cl Some st2 vol False by (simp add: generateDailyWorkoutH_def)
    qed
    moreover have "unchangedBelow ?n H H4"
      using f1(1) f2 f3n f4 unchangedBelow_trans by blast
    moreover have "?n \<le> nxt H4" using n2 f3(2) f4 by simp
    ultimately show ?thesis by simp
  qed
qed


text \<open>
  Claim C4. \<open>generateDailyWorkout\<close> never mutates the planned workout it is given:
  whatever the user, feedback and history, and whichever substitution, volume or load
  rules fire, after the call the caller's workout object, its exercise array and every
  exercise object in it hold what they held before. Every write of the engine goes to an
  object made during the call.
\<close>

theorem generateDailyWorkoutH_preserves_plan:
  assumes "allocated H p" and "generateDailyWorkoutH u p fb h H = (res, H')"
  shows "readWorkout H' p = readWorkout H p \<and> unchangedBelow (nxt H) H H'"
  using allocated_unchanged [OF assms(1)] generateDailyWorkoutH_frame [OF assms(2)]
  by simp

lemma readWorkout_testStore: "readWorkout testStore 4 = testPlan"
  by (simp add: readWorkout_def testStore_def testPlan_def)

theorem generateDailyWorkoutH_preserves_plan_witness:
  "allocated testStore 4
   \<and> readWorkout (snd (generateDailyWorkoutH testUser 4 feedbackC historyA testStore)) 4
       = testPlan"
proof -
  have al: "allocated testStore 4"
    by (simp add: allocated_def testStore_def)
  have run: "generateDailyWorkoutH testUser 4 feedbackC historyA testStore
               = (fst (generateDailyWorkoutH testUser 4 feedbackC historyA testStore),
                  snd (generateDailyWorkoutH testUser 4 feedbackC historyA testStore))"
    by simp
  from generateDailyWorkoutH_preserves_plan [OF al run] al show ?thesis
    by (simp add: readWorkout_testStore)
qed


text \<open>\<open>adjustVolume\<close> on its own leaves its argument as it was, too.\<close>

lemma adjustVolumeH_preserves_plan:
  assumes "allocated H p" and "adjustVolumeH p score H = ((q, ty), H')"
  shows "readWorkout H' p = readWorkout H p \<and> unchangedBelow (nxt H) H H'"
  using allocated_unchanged [OF assms(1)] adjustVolumeH_frame [OF assms(2)]
  by simp

section \<open>The engine on the store computes the engine on values\<close>

text \<open>
  The value-level \<open>generateDailyWorkout\<close> and the store-level \<open>generateDailyWorkoutH\<close>
  are two readings of the same source. They agree: run on a store, the engine returns what
  the value-level engine returns on the value of the planned workout, with the returned
  workout object read from the store the call leaves behind.
\<close>

lemma substitutePass_snd:
  "snd (substitutePass pa exs) = concat (map (\<lambda>ex. snd (substituteSlot pa ex)) exs)"
  by (induction exs) (simp_all add: split_def Let_def)

lemma loadStage_snd:
  "snd (loadStage h exs) = concat (map (\<lambda>ex. snd (progressSlot h ex)) exs)"
  by (induction exs) (simp_all add: split_def Let_def)

lemma foldl_update_indices:
  "k \<le> length xs \<Longrightarrow>
     foldl (\<lambda>st i. ((fst st)[i := f (fst st ! i)], snd st @ g (fst st ! i))) (xs, e0) [0..<k]
       = (map f (take k xs) @ drop k xs, e0 @ concat (map g (take k xs)))"
proof (induction k)
  case 0
  then show ?case by simp
next
  case (Suc k)
  then have k: "k < length xs" by simp
  let ?A = "map f (take k xs)"
  have lenA: "length ?A = k" using k by simp
  have nth: "(?A @ drop k xs) ! k = xs ! k"
    using k by (simp add: nth_append)
  have upd: "(?A @ drop k xs)[k := v] = ?A @ v # drop (Suc k) xs" for v
    using k lenA by (simp add: list_update_append Cons_nth_drop_Suc [symmetric])
  show ?case
    using Suc.IH k by (simp add: nth upd take_Suc_conv_app_nth)
qed

lemma allocExercises_content:
  "allocExercises es H = (as, H') \<Longrightarrow> map (exObj H') as = es \<and> distinct as"
proof (induction es arbitrary: H as H')
  case Nil
  then show ?case by simp
next
  case (Cons e es)
  obtain as1 H2 where r:
    "allocExercises es (H\<lparr>exObj := (exObj H)(nxt H := e), nxt := Suc (nxt H)\<rparr>) = (as1, H2)"
    by (cases "allocExercises es (H\<lparr>exObj := (exObj H)(nxt H := e), nxt := Suc (nxt H)\<rparr>)")
  let ?H1 = "H\<lparr>exObj := (exObj H)(nxt H := e), nxt := Suc (nxt H)\<rparr>"
  from Cons.prems r have eq: "as = nxt H # as1" "H' = H2"
    by (simp_all add: allocExercise_def)
  from Cons.IH [OF r] have ih: "map (exObj H2) as1 = es" "distinct as1" by simp_all
  from allocExercises_frame [OF r] have fr: "unchangedBelow (nxt ?H1) ?H1 H2"
    "list_all (\<lambda>a. nxt ?H1 \<le> a \<and> a < nxt H2) as1"
    by simp_all
  have "exObj H2 (nxt H) = e"
    using fr(1) by (simp add: unchangedBelow_def)
  moreover have "nxt H \<notin> set as1"
    using fr(2) by (auto simp: list_all_iff)
  ultimately show ?case using eq ih by simp
qed

lemma allocWorkout_content:
  assumes "allocWorkout w H = (p, H')"
  shows "readWorkout H' p = w \<and> good H' p"
proof -
  obtain as H1 where al: "allocExercises (exercises w) H = (as, H1)"
    by (cases "allocExercises (exercises w) H")
  from allocExercises_content [OF al] have c: "map (exObj H1) as = exercises w" "distinct as"
    by simp_all
  from assms al have p: "p = Suc (nxt H1)"
    and H': "H' = H1\<lparr>arrObj := (arrObj H1)(nxt H1 := as),
                     wkObj := (wkObj H1)(Suc (nxt H1) :=
                        \<lparr>wo_id = wid w, wo_userId = userId w, wo_name = wname w,
                         wo_exercises = nxt H1, wo_date = date w\<rparr>),
                     nxt := Suc (Suc (nxt H1))\<rparr>"
    by (auto simp: allocWorkout_def allocArray_def Let_def)
  from allocWorkout_frame [OF assms] have "allocated H' p" by (simp add: owned_def)
  moreover have "readWorkout H' p = w"
    by (simp add: readWorkout_def p H' c)
  moreover have "distinct (arrObj H' (wo_exercises (wkObj H' p)))"
    by (simp add: p H' c)
  ultimately show ?thesis by (simp add: good_def)
qed

lemma jsonClone_content:
  assumes "jsonClone p H = (q, H')"
  shows "readWorkout H' q = readWorkout H p \<and> good H' q"
  using assms allocWorkout_content by (simp add: jsonClone_def)

lemma good_unchanged:
  assumes "good H p" and "unchangedBelow (nxt H) H H'" and "nxt H \<le> nxt H'"
  shows "good H' p \<and> readWorkout H' p = readWorkout H p"
proof -
  from assms(1) have al: "allocated H p" by (simp add: good_def)
  from allocated_unchanged [OF al assms(2,3)] assms(1) show ?thesis
    by (auto simp: good_def)
qed


lemma slotStep_pass:
  "foldl (slotStep pa) (xs, e0) [0..<length xs] = (fst (substitutePass pa xs), e0 @ snd (substitutePass pa xs))"
  unfolding slotStep_def
  using foldl_update_indices [of "length xs" xs "\<lambda>ex. fst (substituteSlot pa ex)"
      "\<lambda>ex. snd (substituteSlot pa ex)" e0]
  by (simp add: substitutePass_fst substitutePass_snd)

lemma substituteAtH_content:
  assumes "good (fst st) adj"
    and "index < length (exercises (readWorkout (fst st) adj))"
  shows "good (fst (substituteAtH pa adj st index)) adj
         \<and> (exercises (readWorkout (fst (substituteAtH pa adj st index)) adj),
             snd (substituteAtH pa adj st index))
            = slotStep pa (exercises (readWorkout (fst st) adj), snd st) index
         \<and> (readWorkout (fst (substituteAtH pa adj st index)) adj)\<lparr>exercises := []\<rparr>
            = (readWorkout (fst st) adj)\<lparr>exercises := []\<rparr>"
proof -
  let ?H = "fst st"
  let ?arr = "wo_exercises (wkObj ?H adj)"
  let ?as = "arrObj ?H ?arr"
  let ?ex = "exObj ?H (?as ! index)"
  from assms(1) have adj: "adj < nxt ?H" and arr: "?arr < nxt ?H"
    and els: "\<forall>a \<in> set ?as. a < nxt ?H" and dist: "distinct ?as"
    by (auto simp: good_def allocated_def list_all_iff)
  from assms(2) have idx: "index < length ?as" by (simp add: readWorkout_def Let_def)
  have cur: "exercises (readWorkout ?H adj) ! index = ?ex"
    using idx by (simp add: readWorkout_def Let_def)
  show ?thesis
  proof (cases "isExerciseRisky ?ex pa")
    case False
    then have same: "substituteAtH pa adj st index = st"
      by (simp add: substituteAtH_def Let_def)
    have "substituteSlot pa ?ex = (?ex, [])" using False by (simp add: substituteSlot_def)
    then have "slotStep pa (exercises (readWorkout ?H adj), snd st) index
                 = (exercises (readWorkout ?H adj), snd st)"
      using cur assms(2) by (simp add: slotStep_def list_update_same_conv)
    then show ?thesis
      using assms(1) by (simp add: same)
  next
    case True
    let ?sub = "getSafeSubstitution ?ex pa"
    let ?H2 = "?H\<lparr>exObj := (exObj ?H)(nxt ?H := ?sub), nxt := Suc (nxt ?H),
                   arrObj := (arrObj ?H)(?arr := ?as[index := nxt ?H])\<rparr>"
    have res: "substituteAtH pa adj st index
                 = (?H2, snd st @ [explainAdjustment INJURY_SUBSTITUTION
                                     (InjuryContext pa (name ?ex) (name ?sub))])"
      using True by (simp add: substituteAtH_def Let_def allocExercise_def)
    have slot: "substituteSlot pa ?ex
                  = (?sub, [explainAdjustment INJURY_SUBSTITUTION
                              (InjuryContext pa (name ?ex) (name ?sub))])"
      using True by (simp add: substituteSlot_def Let_def)
    have fresh: "nxt ?H \<notin> set ?as" using els by auto
    have old: "map ((exObj ?H)(nxt ?H := ?sub)) ?as = map (exObj ?H) ?as"
      using fresh by (simp add: map_eq_conv)
    have content: "map ((exObj ?H)(nxt ?H := ?sub)) (?as[index := nxt ?H])
                     = (map (exObj ?H) ?as)[index := ?sub]"
      by (simp add: map_update old)
    have sub: "set (?as[index := nxt ?H]) \<subseteq> insert (nxt ?H) (set ?as)"
      by (rule set_update_subset_insert)
    have els2: "a < Suc (nxt ?H)" if "a \<in> set (?as[index := nxt ?H])" for a
    proof -
      from that sub have "a = nxt ?H \<or> a \<in> set ?as" by blast
      then show ?thesis using els by (auto simp: less_Suc_eq)
    qed
    have dist2: "distinct (?as[index := nxt ?H])"
      using dist fresh by (simp add: distinct_list_update)
    have g: "good ?H2 adj"
      using adj arr els2 dist2 by (auto simp: good_def allocated_def list_all_iff)
    have rd: "exercises (readWorkout ?H2 adj) = (exercises (readWorkout ?H adj))[index := ?sub]"
      by (simp add: readWorkout_def Let_def content)
    have other: "(readWorkout ?H2 adj)\<lparr>exercises := []\<rparr> = (readWorkout ?H adj)\<lparr>exercises := []\<rparr>"
      by (simp add: readWorkout_def Let_def)
    show ?thesis
      using g rd other cur by (simp add: res slotStep_def slot)
  qed
qed

lemma substituteFoldH_content:
  assumes "good (fst st) adj"
    and "\<forall>i \<in> set ks. i < length (exercises (readWorkout (fst st) adj))"
  shows "good (fst (foldl (substituteAtH pa adj) st ks)) adj
         \<and> (exercises (readWorkout (fst (foldl (substituteAtH pa adj) st ks)) adj),
             snd (foldl (substituteAtH pa adj) st ks))
            = foldl (slotStep pa) (exercises (readWorkout (fst st) adj), snd st) ks
         \<and> (readWorkout (fst (foldl (substituteAtH pa adj) st ks)) adj)\<lparr>exercises := []\<rparr>
            = (readWorkout (fst st) adj)\<lparr>exercises := []\<rparr>"
  using assms
proof (induction ks arbitrary: st)
  case Nil
  then show ?case by simp
next
  case (Cons k ks)
  let ?st1 = "substituteAtH pa adj st k"
  from Cons.prems have k: "k < length (exercises (readWorkout (fst st) adj))" by simp
  from substituteAtH_content [OF Cons.prems(1) k, of pa]
  have g1: "good (fst ?st1) adj"
    and c1: "(exercises (readWorkout (fst ?st1) adj), snd ?st1)
               = slotStep pa (exercises (readWorkout (fst st) adj), snd st) k"
    and o1: "(readWorkout (fst ?st1) adj)\<lparr>exercises := []\<rparr>
               = (readWorkout (fst st) adj)\<lparr>exercises := []\<rparr>"
    by simp_all
  from c1 have len: "length (exercises (readWorkout (fst ?st1) adj))
                       = length (exercises (readWorkout (fst st) adj))"
    by (simp add: slotStep_def)
  have ks: "\<forall>i \<in> set ks. i < length (exercises (readWorkout (fst ?st1) adj))"
    using Cons.prems(2) len by simp
  from Cons.IH [OF g1 ks] c1 o1 show ?case by simp
qed

lemma substitutePassH_content:
  assumes "good (fst st) adj"
  shows "good (fst (substitutePassH adj st pa)) adj
         \<and> exercises (readWorkout (fst (substitutePassH adj st pa)) adj)
            = fst (substitutePass pa (exercises (readWorkout (fst st) adj)))
         \<and> snd (substitutePassH adj st pa)
            = snd st @ snd (substitutePass pa (exercises (readWorkout (fst st) adj)))
         \<and> (readWorkout (fst (substitutePassH adj st pa)) adj)\<lparr>exercises := []\<rparr>
            = (readWorkout (fst st) adj)\<lparr>exercises := []\<rparr>"
proof -
  let ?xs = "exercises (readWorkout (fst st) adj)"
  have len: "length (arrObj (fst st) (wo_exercises (wkObj (fst st) adj))) = length ?xs"
    by (simp add: readWorkout_def Let_def)
  have ks: "\<forall>i \<in> set [0..<length ?xs]. i < length ?xs" by simp
  from substituteFoldH_content [OF assms ks, of pa] slotStep_pass [of pa ?xs "snd st"]
  show ?thesis
    unfolding substitutePassH_def len by (simp add: prod_eq_iff)
qed

lemma injuryStageH_content:
  assumes "good (fst st) adj"
  shows "good (fst (injuryStageH flags adj st)) adj
         \<and> (exercises (readWorkout (fst (injuryStageH flags adj st)) adj),
             snd (injuryStageH flags adj st))
            = injuryStage flags (exercises (readWorkout (fst st) adj), snd st)
         \<and> (readWorkout (fst (injuryStageH flags adj st)) adj)\<lparr>exercises := []\<rparr>
            = (readWorkout (fst st) adj)\<lparr>exercises := []\<rparr>"
  using assms unfolding injuryStageH_def
proof (induction flags arbitrary: st)
  case Nil
  then show ?case by simp
next
  case (Cons pa flags)
  let ?st1 = "substitutePassH adj st pa"
  from substitutePassH_content [OF Cons.prems, of pa]
  have g1: "good (fst ?st1) adj"
    and c1: "exercises (readWorkout (fst ?st1) adj)
               = fst (substitutePass pa (exercises (readWorkout (fst st) adj)))"
    and e1: "snd ?st1 = snd st @ snd (substitutePass pa (exercises (readWorkout (fst st) adj)))"
    and o1: "(readWorkout (fst ?st1) adj)\<lparr>exercises := []\<rparr>
               = (readWorkout (fst st) adj)\<lparr>exercises := []\<rparr>"
    by simp_all
  from Cons.IH [OF g1] c1 e1 o1 show ?case
    by (simp add: split_def Let_def)
qed


lemma exObj_writeExercise: "exObj (writeExercise f H a) = (exObj H)(a := f (exObj H a))"
  by (simp add: writeExercise_def)

lemma writeExercises_content:
  assumes "distinct as"
  shows "exObj (foldl (writeExercise f) H as)
           = (\<lambda>a. if a \<in> set as then f (exObj H a) else exObj H a)"
  using assms
proof (induction as arbitrary: H)
  case Nil
  then show ?case by simp
next
  case (Cons a as)
  then have ih: "exObj (foldl (writeExercise f) (writeExercise f H a) as)
                   = (\<lambda>b. if b \<in> set as then f (exObj (writeExercise f H a) b)
                           else exObj (writeExercise f H a) b)"
    by simp
  from Cons.prems have "a \<notin> set as" by simp
  then show ?case
    by (auto simp: ih exObj_writeExercise fun_eq_iff)
qed

lemma adjustVolumeH_content:
  assumes "allocated H p" and "adjustVolumeH p score H = ((q, ty), H')"
  shows "good H' q \<and> readWorkout H' q = vworkout (adjustVolume (readWorkout H p) score)
         \<and> ty = vtype (adjustVolume (readWorkout H p) score)"
proof -
  obtain c H1 where cl: "jsonClone p H = (c, H1)" by (cases "jsonClone p H")
  from jsonClone_content [OF cl] have c1: "readWorkout H1 c = readWorkout H p" "good H1 c"
    by simp_all
  let ?slots = "arrObj H1 (wo_exercises (wkObj H1 c))"
  from c1(2) have dist: "distinct ?slots" by (simp add: good_def)
  have wr: "good (foldl (writeExercise f) H1 ?slots) c
            \<and> readWorkout (foldl (writeExercise f) H1 ?slots) c
                = (readWorkout H p)\<lparr>exercises := map f (exercises (readWorkout H p))\<rparr>" for f
  proof -
    from writeExercises_frame [of 0 ?slots H1 f]
    have sh: "arrObj (foldl (writeExercise f) H1 ?slots) = arrObj H1"
      "wkObj (foldl (writeExercise f) H1 ?slots) = wkObj H1"
      "nxt (foldl (writeExercise f) H1 ?slots) = nxt H1"
      by (simp_all add: list_all_iff)
    have g: "good (foldl (writeExercise f) H1 ?slots) c"
      using c1(2) by (simp add: good_def allocated_def sh)
    have "map (exObj (foldl (writeExercise f) H1 ?slots)) ?slots = map f (map (exObj H1) ?slots)"
      by (simp add: writeExercises_content [OF dist])
    then have "readWorkout (foldl (writeExercise f) H1 ?slots) c
                 = (readWorkout H1 c)\<lparr>exercises := map f (exercises (readWorkout H1 c))\<rparr>"
      by (simp add: readWorkout_def Let_def sh)
    with g c1(1) show ?thesis by simp
  qed
  show ?thesis
    using assms(2) cl c1 wr [of deloadSets] wr [of reduceSets]
    by (auto simp: adjustVolumeH_def adjustVolume_def Let_def split: if_splits)
qed

lemma progressFoldH_content:
  assumes "distinct as"
  shows "foldl (progressAtH h) (H, e) as
           = (H\<lparr>exObj := (\<lambda>a. if a \<in> set as then fst (progressSlot h (exObj H a)) else exObj H a)\<rparr>,
              e @ concat (map (\<lambda>a. snd (progressSlot h (exObj H a))) as))"
  using assms
proof (induction as arbitrary: H e)
  case Nil
  then show ?case by simp
next
  case (Cons a as)
  let ?H1 = "H\<lparr>exObj := (exObj H)(a := fst (progressSlot h (exObj H a)))\<rparr>"
  have step: "progressAtH h (H, e) a = (?H1, e @ snd (progressSlot h (exObj H a)))"
    by (simp add: progressAtH_def split_def Let_def)
  from Cons.prems have na: "a \<notin> set as" and d: "distinct as" by simp_all
  have same: "map (\<lambda>b. snd (progressSlot h (exObj ?H1 b))) as
                = map (\<lambda>b. snd (progressSlot h (exObj H b))) as"
    using na by (auto simp: map_eq_conv)
  have ex: "(\<lambda>b. if b \<in> set as then fst (progressSlot h (exObj ?H1 b)) else exObj ?H1 b)
              = (\<lambda>b. if b \<in> set (a # as) then fst (progressSlot h (exObj H b)) else exObj H b)"
    using na by (auto simp: fun_eq_iff)
  have "foldl (progressAtH h) (H, e) (a # as)
          = foldl (progressAtH h) (?H1, e @ snd (progressSlot h (exObj H a))) as"
    by (simp add: step)
  also have "\<dots> = (?H1\<lparr>exObj := (\<lambda>b. if b \<in> set as then fst (progressSlot h (exObj ?H1 b))
                                       else exObj ?H1 b)\<rparr>,
                     (e @ snd (progressSlot h (exObj H a)))
                       @ concat (map (\<lambda>b. snd (progressSlot h (exObj ?H1 b))) as))"
    by (rule Cons.IH [OF d])
  also have "\<dots> = (H\<lparr>exObj := (\<lambda>b. if b \<in> set (a # as) then fst (progressSlot h (exObj H b))
                                     else exObj H b)\<rparr>,
                     e @ concat (map (\<lambda>b. snd (progressSlot h (exObj H b))) (a # as)))"
    unfolding same ex by simp
  finally show ?case .
qed

lemma loadStageH_content:
  assumes "good H adj"
  shows "good (fst (loadStageH h adj (H, e))) adj
         \<and> readWorkout (fst (loadStageH h adj (H, e))) adj
            = (readWorkout H adj)\<lparr>exercises := fst (loadStage h (exercises (readWorkout H adj)))\<rparr>
         \<and> snd (loadStageH h adj (H, e)) = e @ snd (loadStage h (exercises (readWorkout H adj)))"
proof -
  let ?as = "arrObj H (wo_exercises (wkObj H adj))"
  from assms have dist: "distinct ?as" by (simp add: good_def)
  have run: "loadStageH h adj (H, e)
               = (H\<lparr>exObj := (\<lambda>a. if a \<in> set ?as then fst (progressSlot h (exObj H a))
                                    else exObj H a)\<rparr>,
                  e @ concat (map (\<lambda>a. snd (progressSlot h (exObj H a))) ?as))"
    by (simp add: loadStageH_def progressFoldH_content [OF dist])
  show ?thesis
    using assms
    by (simp add: run good_def allocated_def readWorkout_def Let_def loadStage_fst loadStage_snd
        comp_def)
qed


lemma workout_exercises_only:
  "w\<lparr>exercises := []\<rparr> = w0\<lparr>exercises := []\<rparr> \<Longrightarrow> w = w0\<lparr>exercises := exercises w\<rparr>"
  by (cases w, cases w0) simp

lemma generateDailyWorkoutH_refines:
  assumes "generateDailyWorkoutH u p fb h H = (res, H')"
  shows "generateDailyWorkout u (readWorkout H p) fb h = resultOf H' res"
proof -
  let ?w0 = "readWorkout H p"
  let ?rd = "calculateReadiness fb"
  obtain adj H1 where cl: "jsonClone p H = (adj, H1)" by (cases "jsonClone p H")
  from jsonClone_content [OF cl] have c1: "readWorkout H1 adj = ?w0" "good H1 adj"
    by simp_all
  show ?thesis
  proof (cases "painFlags fb")
    case None
    then have "res = Inl TypeError" using assms cl by (simp add: generateDailyWorkoutH_def)
    then show ?thesis using None by (simp add: generateDailyWorkout_def resultOf_def)
  next
    case (Some flags)
    obtain H2 e1 where st2:
      "(if flags \<noteq> [] then injuryStageH flags adj (H1, []) else (H1, [])) = (H2, e1)"
      by (cases "if flags \<noteq> [] then injuryStageH flags adj (H1, []) else (H1, [])")
    obtain exs1 where exs1: "exs1 = exercises (readWorkout H2 adj)" by simp
    have i2: "good H2 adj
              \<and> (if flags \<noteq> [] then injuryStage flags (exercises ?w0, []) else (exercises ?w0, []))
                  = (exs1, e1)
              \<and> readWorkout H2 adj = ?w0\<lparr>exercises := exs1\<rparr>"
    proof (cases "flags \<noteq> []")
      case True
      with st2 have eq: "injuryStageH flags adj (H1, []) = (H2, e1)" by simp
      from injuryStageH_content [of "(H1, [])" adj flags] c1 eq
      have "good H2 adj" and "(exs1, e1) = injuryStage flags (exercises ?w0, [])"
        and "(readWorkout H2 adj)\<lparr>exercises := []\<rparr> = ?w0\<lparr>exercises := []\<rparr>"
        by (simp_all add: exs1)
      then show ?thesis
        using True workout_exercises_only [of "readWorkout H2 adj" ?w0] by (simp add: exs1)
    next
      case False
      with st2 have "H2 = H1" "e1 = []" by simp_all
      then show ?thesis using False c1 by (simp add: exs1)
    qed
    then have g2: "good H2 adj"
      and inj: "(if flags \<noteq> [] then injuryStage flags (exercises ?w0, []) else (exercises ?w0, []))
                  = (exs1, e1)"
      and w2: "readWorkout H2 adj = ?w0\<lparr>exercises := exs1\<rparr>"
      by simp_all
    obtain vw vt H3 where vol: "adjustVolumeH adj ?rd H2 = ((vw, vt), H3)"
      by (cases "adjustVolumeH adj ?rd H2") auto
    from g2 have al2: "allocated H2 adj" by (simp add: good_def)
    from adjustVolumeH_content [OF al2 vol]
    have gv: "good H3 vw" and wv: "readWorkout H3 vw = vworkout (adjustVolume (?w0\<lparr>exercises := exs1\<rparr>) ?rd)"
      and vt: "vt = vtype (adjustVolume (?w0\<lparr>exercises := exs1\<rparr>) ?rd)"
      by (simp_all add: w2)
    from adjustVolumeH_frame [OF vol] good_unchanged [OF g2, of H3]
    have ga: "good H3 adj" and wa: "readWorkout H3 adj = ?w0\<lparr>exercises := exs1\<rparr>"
      by (simp_all add: w2)
    define adj2 where "adj2 = (if vt \<noteq> MAINTENANCE then vw else adj)"
    define w3 where "w3 = (if vt \<noteq> MAINTENANCE
                           then vworkout (adjustVolume (?w0\<lparr>exercises := exs1\<rparr>) ?rd)
                           else ?w0\<lparr>exercises := exs1\<rparr>)"
    have g3: "good H3 adj2" and r3: "readWorkout H3 adj2 = w3"
      using gv ga wv wa by (simp_all add: adj2_def w3_def)
    obtain H4 e3 where st4:
      "(if 40 \<le> ?rd then loadStageH h adj2 (H3, []) else (H3, [])) = (H4, e3)"
      by (cases "if 40 \<le> ?rd then loadStageH h adj2 (H3, []) else (H3, [])")
    have l4: "readWorkout H4 adj2
                = w3\<lparr>exercises := fst (if 40 \<le> ?rd then loadStage h (exercises w3)
                                       else (exercises w3, []))\<rparr>
              \<and> e3 = snd (if 40 \<le> ?rd then loadStage h (exercises w3) else (exercises w3, []))"
    proof (cases "40 \<le> ?rd")
      case True
      with st4 have "loadStageH h adj2 (H3, []) = (H4, e3)" by simp
      with loadStageH_content [OF g3, of h "[]"] r3 True show ?thesis by simp
    next
      case False
      with st4 have "H4 = H3" "e3 = []" by simp_all
      then show ?thesis using False r3 by simp
    qed
    define e2 where "e2 = (if vt \<noteq> MAINTENANCE
        then e1 @ [explainAdjustment vt (VolumeContext (sleepQuality fb)
                     (if vt = DELOAD then ''50%'' else ''20%''))]
        else e1)"
    have res: "res = Inr \<lparr>readinessScoreH = ?rd, workoutH = adj2, explanationsH = e2 @ e3\<rparr>
               \<and> H' = H4"
    proof (cases "vt \<noteq> MAINTENANCE")
      case True
      then have "adj2 = vw" by (simp add: adj2_def)
      with st4 have "(if 40 \<le> ?rd then loadStageH h vw (H3, []) else (H3, [])) = (H4, e3)"
        by (simp only:)
      then show ?thesis
        using assms cl Some st2 vol True
        by (simp add: generateDailyWorkoutH_def adj2_def e2_def)
    next
      case False
      then have "adj2 = adj" by (simp add: adj2_def)
      with st4 have "(if 40 \<le> ?rd then loadStageH h adj (H3, []) else (H3, [])) = (H4, e3)"
        by (simp only:)
      then show ?thesis
        using assms cl Some st2 vol False
        by (simp add: generateDailyWorkoutH_def adj2_def e2_def)
    qed
    have pure: "generateDailyWorkout u ?w0 fb h
                  = Inr \<lparr>readinessScore = ?rd,
                         workout = w3\<lparr>exercises := fst (if 40 \<le> ?rd then loadStage h (exercises w3)
                                                        else (exercises w3, []))\<rparr>,
                         explanations = e2 @ snd (if 40 \<le> ?rd then loadStage h (exercises w3)
                                                 else (exercises w3, []))\<rparr>"
      using Some inj
      by (simp add: generateDailyWorkout_def Let_def split_def w3_def e2_def vt
          del: injuryStage.simps)
    show ?thesis
      using res l4 pure by (simp add: resultOf_def)
  qed
qed


end
